theory Spec2Isabelle
  imports Main
begin

section \<open>Notebook cells\<close>

text \<open>
  The notebook model is consumed through the interface \<open>ICell\<close>: \<open>getId()\<close>,
  \<open>getCellType()\<close>, \<open>getCellScope()\<close> and \<open>getText()\<close>. A cell is modelled as the
  record of what these four accessors return.
\<close>

datatype CellType = Code | Markdown

datatype CellScope = Global | Local

record ICell =
  getId :: string
  getCellType :: CellType
  getCellScope :: CellScope
  getText :: string

section \<open>JavaScript string primitives used by the code generator\<close>


definition CRLF :: string where
  "CRLF = [CHR 0x0D, CHR 0x0A]"

definition DQ :: string where
  "DQ = [CHR 0x22]"

text \<open>\<open>s.split("\n")\<close>: the pieces between line feeds; never empty.\<close>

fun split_nl :: "string \<Rightarrow> string list" where
  "split_nl [] = [[]]"
| "split_nl (c # cs) =
     (if c = CHR 0x0A then [] # split_nl cs
      else (case split_nl cs of
              [] \<Rightarrow> [[c]]
            | l # ls \<Rightarrow> (c # l) # ls))"

text \<open>
  White space and line terminators of ECMAScript among the code units below 256:
  TAB, LF, VT, FF, CR, SP and NBSP.
\<close>

definition isWhiteSpace :: "char \<Rightarrow> bool" where
  "isWhiteSpace c \<longleftrightarrow>
     c = CHR 0x09 \<or> c = CHR 0x0A \<or> c = CHR 0x0B \<or> c = CHR 0x0C \<or>
     c = CHR 0x0D \<or> c = CHR 0x20 \<or> c = CHR 0xA0"

text \<open>\<open>s.trimRight()\<close>: drops the trailing white space.\<close>

definition trimRight :: "string \<Rightarrow> string" where
  "trimRight s = rev (dropWhile isWhiteSpace (rev s))"

text \<open>\<open>xs.join(sep)\<close>.\<close>

fun join :: "string \<Rightarrow> string list \<Rightarrow> string" where
  "join sep [] = []"
| "join sep [x] = x"
| "join sep (x # y # ys) = x @ sep @ join sep (y # ys)"

text \<open>Decimal rendering of a number inside a template literal.\<close>

fun showNat :: "nat \<Rightarrow> string" where
  "showNat n =
     (if n < 10 then [char_of (48 + n)]
      else showNat (n div 10) @ [char_of (48 + n mod 10)])"

section \<open>The JavaScript code generator\<close>

text \<open>\<open>computeNumLines\<close>: counts the line feeds of a piece of code.\<close>

definition computeNumLines :: "string \<Rightarrow> nat" where
  "computeNumLines code = length (filter (\<lambda>c. c = CHR 0x0A) code)"

definition EXPORT_HEADER :: string where
  "EXPORT_HEADER = []"

definition EXPORT_PRE_CODE :: string where
  "EXPORT_PRE_CODE =
     ''function display() {'' @ CRLF @
     ''     for (const arg of arguments) {'' @ CRLF @
     ''          console.log(arg);'' @ CRLF @
     ''     }'' @ CRLF @
     ''}'' @ CRLF @
     ''display.text = display.html = display.plot = display.markdown = display.json = display.geo = display;'' @ CRLF @
     ''display.table = function () {'' @ CRLF @
     ''     for (const arg of arguments) {'' @ CRLF @
     ''          console.table(arg);'' @ CRLF @
     ''     }'' @ CRLF @
     ''}'' @ CRLF @
     CRLF @
     ''async function main() {'' @ CRLF"

definition EXPORT_POST_CODE :: string where
  "EXPORT_POST_CODE =
     CRLF @
     ''}'' @ CRLF @
     CRLF @
     ''main()'' @ CRLF @
     ''    .then(() => console.log('' @ DQ @ ''Done'' @ DQ @ ''))'' @ CRLF @
     ''    .catch(err => console.error(err && err.stack || err));'' @ CRLF"

definition EVAL_PRE_CODE :: string where
  "EVAL_PRE_CODE = ''const wrapperFn = (async function () {'' @ CRLF"

definition EVAL_POST_CODE :: string where
  "EVAL_POST_CODE = CRLF @ ''})''"

definition LOCAL_PRE_CODE :: string where
  "LOCAL_PRE_CODE = ''await (async function () {'' @ CRLF"

definition LOCAL_POST_CODE :: string where
  "LOCAL_POST_CODE = ''})();''"

text \<open>
  The state of \<open>internalGenCode\<close> while it runs: the text built so far
  (\<open>code\<close>), the running line count (\<open>generatedCodeOffset\<close>) and the calls made to
  \<open>sourceMapGenerator.addMappings(cellId, cellStartLine, text)\<close>, in order.
  The predicate \<open>isModuleImportStatement\<close> is imported from a module that is not part of
  the sources at hand; it is a parameter of every function that uses it.
\<close>

record GenState =
  gen_code :: string
  generatedCodeOffset :: nat
  addMappings :: "(string \<times> nat \<times> string) list"

definition emit :: "string \<Rightarrow> GenState \<Rightarrow> GenState" where
  "emit piece g =
     g\<lparr>gen_code := gen_code g @ piece,
       generatedCodeOffset := generatedCodeOffset g + computeNumLines piece\<rparr>"

text \<open>The body of the first loop: the import lines of one cell, hoisted.\<close>

definition moduleImportLines :: "(string \<Rightarrow> bool) \<Rightarrow> ICell \<Rightarrow> string list" where
  "moduleImportLines isModuleImportStatement cell =
     map trimRight (filter isModuleImportStatement (split_nl (getText cell)))"

definition hoistCell :: "(string \<Rightarrow> bool) \<Rightarrow> ICell \<Rightarrow> GenState \<Rightarrow> GenState" where
  "hoistCell isModuleImportStatement cell g =
     (let ls = moduleImportLines isModuleImportStatement cell in
      if length ls \<le> 0 then g
      else emit (join CRLF ls @ CRLF) g)"

text \<open>The body of the second loop, up to the text of the cell.\<close>

definition preCellCode :: "nat \<Rightarrow> ICell \<Rightarrow> string" where
  "preCellCode cellIndex cell =
     ''__cell('' @ showNat cellIndex @ '', '' @ DQ @ getId cell @ DQ @ '', async () => {'' @ CRLF"

definition captureLocalsCode :: "nat \<Rightarrow> ICell \<Rightarrow> string" where
  "captureLocalsCode cellIndex cell =
     ''__capture_locals('' @ showNat cellIndex @ '', '' @ DQ @ getId cell @ DQ @
     '', () => ({}));'' @ CRLF"

definition codeLines :: "(string \<Rightarrow> bool) \<Rightarrow> ICell \<Rightarrow> string list" where
  "codeLines isModuleImportStatement cell =
     map (\<lambda>line. if isModuleImportStatement line then [] else line)
       (map trimRight (split_nl (getText cell)))"

definition cellCode :: "(string \<Rightarrow> bool) \<Rightarrow> ICell \<Rightarrow> string" where
  "cellCode isModuleImportStatement cell =
     (let body = join CRLF (codeLines isModuleImportStatement cell) in
      (if getCellScope cell = Local
       then LOCAL_PRE_CODE @ body @ CRLF @ LOCAL_POST_CODE
       else body) @ CRLF)"

definition genCell ::
  "(string \<Rightarrow> bool) \<Rightarrow> bool \<Rightarrow> nat \<Rightarrow> ICell \<Rightarrow> GenState \<Rightarrow> GenState" where
  "genCell isModuleImportStatement forExport cellIndex cell g =
     (let g1 = (if \<not> forExport then emit (preCellCode cellIndex cell) g else g);
          cellStartLine = generatedCodeOffset g1;
          g2 = emit (cellCode isModuleImportStatement cell) g1;
          g3 = (if \<not> forExport \<and> getCellScope cell \<noteq> Local
                then emit (captureLocalsCode cellIndex cell) g2 else g2)
      in g3\<lparr>addMappings := addMappings g3 @ [(getId cell, cellStartLine, getText cell)]\<rparr>)"

fun genCells ::
  "(string \<Rightarrow> bool) \<Rightarrow> bool \<Rightarrow> nat \<Rightarrow> ICell list \<Rightarrow> GenState \<Rightarrow> GenState" where
  "genCells isModuleImportStatement forExport cellIndex [] g = g"
| "genCells isModuleImportStatement forExport cellIndex (cell # cells) g =
     genCells isModuleImportStatement forExport (cellIndex + 1) cells
       (genCell isModuleImportStatement forExport cellIndex cell g)"

text \<open>The closing loop \<open>while (numCells-- > 0) code += "});\r\n"\<close>.\<close>

fun closeCells :: "nat \<Rightarrow> GenState \<Rightarrow> GenState" where
  "closeCells 0 g = g"
| "closeCells (Suc numCells) g = closeCells numCells (emit (''});'' @ CRLF) g)"

text \<open>
  \<open>internalGenCode(cells, forExport)\<close>. The last update of the line count (after the
  post code) is never read and is left out; \<open>diagnostics\<close> is always empty.
\<close>

definition internalGenCode :: "(string \<Rightarrow> bool) \<Rightarrow> ICell list \<Rightarrow> bool \<Rightarrow> GenState" where
  "internalGenCode isModuleImportStatement allCells forExport =
     (let g0 = emit EXPORT_HEADER \<lparr>gen_code = [], generatedCodeOffset = 0, addMappings = []\<rparr>;
          cells = filter (\<lambda>cell. getCellType cell = Code) allCells;
          g1 = fold (hoistCell isModuleImportStatement) cells g0;
          g2 = emit (if forExport then EXPORT_PRE_CODE else EVAL_PRE_CODE) g1;
          g3 = genCells isModuleImportStatement forExport 0 cells g2;
          g4 = (if \<not> forExport
                then closeCells (length cells) (emit (''__end();'' @ CRLF) g3)
                else g3)
      in g4\<lparr>gen_code := gen_code g4 @ (if forExport then EXPORT_POST_CODE else EVAL_POST_CODE)\<rparr>)"

section \<open>The code evaluator\<close>

text \<open>
  \<open>CodeEvaluator\<close> runs inside the worker process. The record below holds the private
  fields that the modelled methods read or write, under their own names; the notebook,
  the file name, the project path, the generated code, the source map, the logger, npm
  and the async tracker belong to the setup or to other modules and are left out. The six
  optional event handlers are modelled by whether they are set, and every call of a
  handler is appended to \<open>emitted\<close>, so that \<open>emitted\<close> is the sequence of events the
  owner of the evaluator observes. The last six fields record what the methods do to the
  process: the texts handed to the saved stream functions \<open>oldStdoutWrite\<close> and
  \<open>oldStderrWrite\<close>, whether the stream overrides are installed, whether the two process
  listeners are installed, the calls of \<open>reportError\<close> that are suspended at their
  \<open>await\<close>, and the number of polling timers set so far. Times are readings of
  \<open>performance.now()\<close> in milliseconds.
\<close>

definition MAX_OUTPUTS :: nat where
  "MAX_OUTPUTS = 1000"

datatype ErrorSource = ModuleInstall | CodeSetup | CodeEvaluation | Compiler

text \<open>A JavaScript value is a string or some other value, left abstract.\<close>

datatype 'a JsValue = JsString string | JsOther 'a

text \<open>
  The events, named after the handlers that receive them. A cell id read from
  \<open>cellIds\<close> by index may be \<open>undefined\<close>, which is \<open>None\<close>.
\<close>

datatype 'v Event =
    CellEvalStarted string
  | CellEvalEnded string
  | EvaluationCompleted
  | OutputCapped
  | Display "string option" "'v list"
  | Error "string option" string

text \<open>
  The arguments of one \<open>reportError\<close> call (the optional file location, which is only
  handed on to \<open>formatErrorMessage\<close>, is left out).
\<close>

record ErrorReport =
  errorSource :: ErrorSource
  curCellId :: "string option"
  errorMessage :: "string option"
  errorStack :: "string option"

datatype EvalError = NeedSomeCodeCells

record 'v CodeEvaluator =
  onCellEvalStarted :: bool
  onCellEvalEnded :: bool
  onEvaluationCompleted :: bool
  onOutputCapped :: bool
  onDisplay :: bool
  onError :: bool
  numCells :: nat
  numOutputs :: nat
  outputsCapped :: bool
  notebookCompleted :: bool
  notebookFinished :: bool
  cells :: "ICell list"
  cellIds :: "string list"
  cellsCompleted :: "bool list"
  localsFnCache :: "bool list"
  timeout :: "int option"
  startTime :: "int option"
  emitted :: "'v Event list"
  oldStdoutWrites :: "string list"
  oldStderrWrites :: "string list"
  outputOverridden :: bool
  listening :: bool
  suspendedReports :: "ErrorReport list"
  pollingTimers :: nat

text \<open>
  The constructor: keeps the code cells, throws when there is none, and starts every
  completion flag at \<open>false\<close>. The handlers are unset until the owner assigns them.
\<close>

definition newCodeEvaluator :: "ICell list \<Rightarrow> int option \<Rightarrow> EvalError + 'v CodeEvaluator" where
  "newCodeEvaluator allCells timeoutMs =
     (let cs = filter (\<lambda>cell. getCellType cell = Code) allCells in
      if length cs = 0 then Inl NeedSomeCodeCells
      else Inr \<lparr>onCellEvalStarted = False, onCellEvalEnded = False,
                onEvaluationCompleted = False, onOutputCapped = False,
                onDisplay = False, onError = False,
                numCells = length cs, numOutputs = 0, outputsCapped = False,
                notebookCompleted = False, notebookFinished = False,
                cells = cs, cellIds = map getId cs,
                cellsCompleted = replicate (length cs) False,
                localsFnCache = replicate (length cs) False,
                timeout = timeoutMs, startTime = None, emitted = [],
                oldStdoutWrites = [], oldStderrWrites = [],
                outputOverridden = False, listening = False,
                suspendedReports = [], pollingTimers = 0\<rparr>)"

text \<open>Calling an optional handler: \<open>if (this.onX) this.onX(...)\<close>.\<close>

definition notify :: "bool \<Rightarrow> 'v Event \<Rightarrow> 'v CodeEvaluator \<Rightarrow> 'v CodeEvaluator" where
  "notify handler e s = (if handler then s\<lparr>emitted := emitted s @ [e]\<rparr> else s)"

text \<open>\<open>isOutputCapped\<close>: the answer and the state after the call.\<close>

definition isOutputCapped :: "'v CodeEvaluator \<Rightarrow> bool \<times> 'v CodeEvaluator" where
  "isOutputCapped s =
     (if outputsCapped s then (True, s)
      else if numOutputs s \<ge> MAX_OUTPUTS
      then (True, (notify (onOutputCapped s) OutputCapped s)\<lparr>outputsCapped := True\<rparr>)
      else (False, s\<lparr>numOutputs := numOutputs s + 1\<rparr>))"

text \<open>
  \<open>getCurCellId\<close>. The argument \<open>found\<close> is what the async tracker's \<open>findCellIndex\<close>
  answers for the current execution context (the tracker is another module);
  \<open>undefined || 0\<close> and \<open>0 || 0\<close> are both \<open>0\<close>.
\<close>

definition getCurCellId :: "nat option \<Rightarrow> 'v CodeEvaluator \<Rightarrow> string option" where
  "getCurCellId found s =
     (let cellIndex = (case found of None \<Rightarrow> 0 | Some i \<Rightarrow> i) in
      if cellIndex < length (cellIds s) then Some (cellIds s ! cellIndex) else None)"

text \<open>
  \<open>display\<close>; \<open>convertDisplayValue\<close> belongs to another module and is the parameter
  \<open>cdv\<close>.
\<close>

definition display ::
  "('a JsValue \<Rightarrow> 'v) \<Rightarrow> nat option \<Rightarrow> 'a JsValue list \<Rightarrow> 'v CodeEvaluator \<Rightarrow> 'v CodeEvaluator" where
  "display cdv found args s =
     (case isOutputCapped s of
        (True, s1) \<Rightarrow> s1
      | (False, s1) \<Rightarrow> notify (onDisplay s1) (Display (getCurCellId found s1) (map cdv args)) s1)"

text \<open>
  The two stream overrides. \<open>ret\<close> is what the saved write function returns when it is
  called; the result is the returned boolean and the state after the call.
\<close>

definition stdoutWriteOverride ::
  "('a JsValue \<Rightarrow> 'v) \<Rightarrow> nat option \<Rightarrow> string \<Rightarrow> bool \<Rightarrow> 'v CodeEvaluator
     \<Rightarrow> bool \<times> 'v CodeEvaluator" where
  "stdoutWriteOverride cdv found text ret s =
     (case isOutputCapped s of
        (False, s1) \<Rightarrow>
          (let s2 = notify (onDisplay s1) (Display (getCurCellId found s1) [cdv (JsString text)]) s1
           in (ret, s2\<lparr>oldStdoutWrites := oldStdoutWrites s2 @ [text]\<rparr>))
      | (True, s1) \<Rightarrow> (True, s1))"

definition stderrWriteOverride ::
  "nat option \<Rightarrow> string \<Rightarrow> bool \<Rightarrow> 'v CodeEvaluator \<Rightarrow> bool \<times> 'v CodeEvaluator" where
  "stderrWriteOverride found text ret s =
     (case isOutputCapped s of
        (False, s1) \<Rightarrow>
          (let s2 = notify (onError s1) (Error (getCurCellId found s1) text) s1
           in (ret, s2\<lparr>oldStderrWrites := oldStderrWrites s2 @ [text]\<rparr>))
      | (True, s1) \<Rightarrow> (True, s1))"

definition overrideOutput :: "'v CodeEvaluator \<Rightarrow> 'v CodeEvaluator" where
  "overrideOutput s = s\<lparr>outputOverridden := True\<rparr>"

definition restoreOutput :: "'v CodeEvaluator \<Rightarrow> 'v CodeEvaluator" where
  "restoreOutput s = s\<lparr>outputOverridden := False\<rparr>"

text \<open>
  \<open>reportError\<close> is an \<open>async\<close> method: it runs (logging only) up to
  \<open>await formatErrorMessage(...)\<close> and is suspended there; the call of \<open>onError\<close> is in
  the continuation, which the event loop runs in a later turn. \<open>reportErrorSync\<close> starts
  \<open>reportError\<close> through \<open>handleAsyncErrors\<close> and returns to its caller without waiting.
  \<open>resumeReport\<close> is the continuation of the \<open>k\<close>-th suspended call;
  \<open>formatErrorMessage\<close> belongs to another module and is the parameter \<open>fmt\<close>, giving
  the \<open>cellId\<close> and the \<open>display\<close> text of its result.
\<close>

definition reportError :: "ErrorReport \<Rightarrow> 'v CodeEvaluator \<Rightarrow> 'v CodeEvaluator" where
  "reportError r s = s\<lparr>suspendedReports := suspendedReports s @ [r]\<rparr>"

definition reportErrorSync :: "ErrorReport \<Rightarrow> 'v CodeEvaluator \<Rightarrow> 'v CodeEvaluator" where
  "reportErrorSync r s = reportError r s"

definition resumeReport ::
  "(ErrorReport \<Rightarrow> string option \<times> string) \<Rightarrow> nat \<Rightarrow> 'v CodeEvaluator \<Rightarrow> 'v CodeEvaluator" where
  "resumeReport fmt k s =
     (if k < length (suspendedReports s)
      then (let errorMsg = fmt (suspendedReports s ! k) in
            notify (onError s) (Error (fst errorMsg) (snd errorMsg))
              (s\<lparr>suspendedReports := take k (suspendedReports s) @ drop (Suc k) (suspendedReports s)\<rparr>))
      else s)"

text \<open>
  \<open>onFinished\<close>. Destroying the source map and shutting down the async tracker do not
  touch the fields modelled.
\<close>

definition onFinished :: "'v CodeEvaluator \<Rightarrow> 'v CodeEvaluator" where
  "onFinished s =
     (if notebookFinished s then s
      else (let s1 = restoreOutput (s\<lparr>notebookFinished := True\<rparr>);
                s2 = s1\<lparr>listening := False\<rparr>
            in notify (onEvaluationCompleted s2) EvaluationCompleted s2))"

text \<open>\<open>onUncaughtException\<close> and \<open>onUnhandledRejection\<close>.\<close>

definition onUncaughtException ::
  "nat option \<Rightarrow> string option \<Rightarrow> string option \<Rightarrow> 'v CodeEvaluator \<Rightarrow> 'v CodeEvaluator" where
  "onUncaughtException found msg stack s =
     onFinished (reportErrorSync
       \<lparr>errorSource = CodeEvaluation, curCellId = getCurCellId found s,
        errorMessage = msg, errorStack = stack\<rparr> s)"

definition onUnhandledRejection ::
  "nat option \<Rightarrow> string option \<Rightarrow> string option \<Rightarrow> 'v CodeEvaluator \<Rightarrow> 'v CodeEvaluator" where
  "onUnhandledRejection found msg stack s =
     onFinished (reportErrorSync
       \<lparr>errorSource = CodeEvaluation, curCellId = getCurCellId found s,
        errorMessage = msg, errorStack = stack\<rparr> s)"

text \<open>
  \<open>awaitNotebookCompleted\<close>, one run of the polling function. \<open>now\<close> is the reading of
  \<open>performance.now()\<close> (in milliseconds), \<open>hasCellCompleted\<close> what the async tracker
  answers for each cell index during this run, and \<open>found\<close> as in \<open>getCurCellId\<close>.
  The loop body is \<open>pollCell\<close>; its second component is \<open>allCellsCompleted\<close>. The final
  capture of locals calls the cached \<open>getLocals\<close>, for which the generator emits
  \<open>() => ({})\<close>: it yields no keys and assigns nothing.
\<close>

definition pollCell ::
  "(nat \<Rightarrow> bool) \<Rightarrow> nat \<Rightarrow> 'v CodeEvaluator \<times> bool \<Rightarrow> 'v CodeEvaluator \<times> bool" where
  "pollCell hasCellCompleted cellIndex st =
     (case st of (s, allCellsCompleted) \<Rightarrow>
        if cellsCompleted s ! cellIndex then (s, allCellsCompleted)
        else if hasCellCompleted cellIndex
        then (notify (onCellEvalEnded s) (CellEvalEnded (cellIds s ! cellIndex))
                (s\<lparr>cellsCompleted := (cellsCompleted s)[cellIndex := True]\<rparr>),
              allCellsCompleted)
        else (s, False))"

definition timedOut :: "int \<Rightarrow> 'v CodeEvaluator \<Rightarrow> bool" where
  "timedOut now s =
     (case timeout s of
        None \<Rightarrow> False
      | Some t \<Rightarrow> (case startTime s of None \<Rightarrow> False | Some t0 \<Rightarrow> now - t0 > t))"

definition awaitNotebookCompleted ::
  "int \<Rightarrow> (nat \<Rightarrow> bool) \<Rightarrow> nat option \<Rightarrow> 'v CodeEvaluator \<Rightarrow> 'v CodeEvaluator" where
  "awaitNotebookCompleted now hasCellCompleted found s =
     (if notebookFinished s then s
      else if timedOut now s
      then onFinished (reportErrorSync
             \<lparr>errorSource = CodeEvaluation, curCellId = getCurCellId found s,
              errorMessage = Some ''Notebook exceeded timeout'', errorStack = None\<rparr> s)
      else (case fold (pollCell hasCellCompleted) [0..<numCells s] (s, True) of
              (s1, allCellsCompleted) \<Rightarrow>
                if notebookCompleted s1 \<and> allCellsCompleted then onFinished s1
                else s1\<lparr>pollingTimers := pollingTimers s1 + 1\<rparr>))"

text \<open>
  \<open>captureLocals\<close> writes to the process-wide object \<open>global\<close>, which is not a field
  of the evaluator: it is modelled on its own, as a function of the object \<open>locals\<close>
  that \<open>getLocals()\<close> returns (its keys in order, with their values) and of the global
  bindings.
\<close>

definition captureLocals :: "(string \<times> 'a) list \<Rightarrow> (string \<rightharpoonup> 'a) \<Rightarrow> (string \<rightharpoonup> 'a)" where
  "captureLocals locals global =
     fold (\<lambda>key g. g(key := map_of locals key)) (map fst locals) global"

text \<open>
  The hooks the generated code calls: \<open>__end\<close>, \<open>__capture_locals\<close>, \<open>__cell\<close>. The
  generated code passes cell indices below \<open>numCells\<close>. \<open>__capture_locals\<close> caches the
  function it is given and hands it to \<open>captureLocals\<close>; for the function the generator
  emits, \<open>() => ({})\<close>, there are no keys and nothing is assigned.
\<close>

definition hook_end :: "'v CodeEvaluator \<Rightarrow> 'v CodeEvaluator" where
  "hook_end s = s\<lparr>notebookCompleted := True\<rparr>"

definition hook_capture_locals :: "nat \<Rightarrow> 'v CodeEvaluator \<Rightarrow> 'v CodeEvaluator" where
  "hook_capture_locals cellIndex s =
     s\<lparr>localsFnCache := (localsFnCache s)[cellIndex := True]\<rparr>"

text \<open>
  \<open>__cell\<close> up to the call of the cell's code. What the cell's code does shows as later
  calls of the hooks; a synchronous throw or a rejection of its promise runs one of the
  two \<open>catch\<close> handlers, which is \<open>cellFailed\<close>.
\<close>

definition hook_cell :: "nat \<Rightarrow> string \<Rightarrow> 'v CodeEvaluator \<Rightarrow> 'v CodeEvaluator" where
  "hook_cell cellIndex cellId s =
     (if notebookFinished s then s
      else notify (onCellEvalStarted s) (CellEvalStarted cellId) s)"

definition cellFailed ::
  "string \<Rightarrow> string option \<Rightarrow> string option \<Rightarrow> 'v CodeEvaluator \<Rightarrow> 'v CodeEvaluator" where
  "cellFailed cellId msg stack s =
     onFinished (reportErrorSync
       \<lparr>errorSource = CodeEvaluation, curCellId = Some cellId,
        errorMessage = msg, errorStack = stack\<rparr> s)"

text \<open>
  \<open>evalGeneratedCode\<close> up to the call of the compiled function. \<open>vmError\<close> is the
  message and stack of the exception \<open>vm.runInThisContext\<close> throws, if it throws. A
  failure of the compiled function itself (thrown or rejected) runs \<open>wrapperFailed\<close>;
  the direct call of \<open>awaitNotebookCompleted\<close> that follows is the first polling run.
\<close>

definition evalGeneratedCode ::
  "(string option \<times> string option) option \<Rightarrow> int \<Rightarrow> nat option \<Rightarrow> 'v CodeEvaluator
     \<Rightarrow> 'v CodeEvaluator" where
  "evalGeneratedCode vmError now found s =
     (case vmError of
        Some (msg, stack) \<Rightarrow>
          reportErrorSync
            \<lparr>errorSource = CodeSetup, curCellId = getCurCellId found s,
             errorMessage = msg, errorStack = stack\<rparr> s
      | None \<Rightarrow> (overrideOutput s)\<lparr>startTime := Some now, listening := True\<rparr>)"

definition wrapperFailed ::
  "nat option \<Rightarrow> string option \<Rightarrow> string option \<Rightarrow> 'v CodeEvaluator \<Rightarrow> 'v CodeEvaluator" where
  "wrapperFailed found msg stack s =
     onFinished (reportErrorSync
       \<lparr>errorSource = CodeEvaluation, curCellId = getCurCellId found s,
        errorMessage = msg, errorStack = stack\<rparr> s)"

text \<open>
  What can happen to an evaluator, one constructor per entry point: the steps of
  \<open>evalCode\<close>, the hooks called by the generated code, the stream writes and process
  events while the overrides and listeners are installed, the polling timer, and the
  continuation of a suspended \<open>reportError\<close>.
\<close>

datatype 'a Action =
    SetupReportsError ErrorReport
  | SetupEndsWithoutCode
  | EvalGeneratedCode "(string option \<times> string option) option" int "nat option"
  | WrapperFails "nat option" "string option" "string option"
  | CallCell nat string
  | CellFails string "string option" "string option"
  | CallDisplay "nat option" "'a JsValue list"
  | CallCaptureLocals nat
  | CallEnd
  | StdoutWrite "nat option" string bool
  | StderrWrite "nat option" string bool
  | UncaughtException "nat option" "string option" "string option"
  | UnhandledRejection "nat option" "string option" "string option"
  | PollingRun int "nat \<Rightarrow> bool" "nat option"
  | ResumeReport nat

fun step ::
  "('a JsValue \<Rightarrow> 'v) \<Rightarrow> (ErrorReport \<Rightarrow> string option \<times> string) \<Rightarrow> 'a Action
     \<Rightarrow> 'v CodeEvaluator \<Rightarrow> 'v CodeEvaluator" where
  "step cdv fmt (SetupReportsError r) s = reportError r s"
| "step cdv fmt SetupEndsWithoutCode s = onFinished s"
| "step cdv fmt (EvalGeneratedCode vmError now found) s = evalGeneratedCode vmError now found s"
| "step cdv fmt (WrapperFails found msg stack) s = wrapperFailed found msg stack s"
| "step cdv fmt (CallCell cellIndex cellId) s = hook_cell cellIndex cellId s"
| "step cdv fmt (CellFails cellId msg stack) s = cellFailed cellId msg stack s"
| "step cdv fmt (CallDisplay found args) s = display cdv found args s"
| "step cdv fmt (CallCaptureLocals cellIndex) s = hook_capture_locals cellIndex s"
| "step cdv fmt CallEnd s = hook_end s"
| "step cdv fmt (StdoutWrite found text ret) s =
     (if outputOverridden s then snd (stdoutWriteOverride cdv found text ret s) else s)"
| "step cdv fmt (StderrWrite found text ret) s =
     (if outputOverridden s then snd (stderrWriteOverride found text ret s) else s)"
| "step cdv fmt (UncaughtException found msg stack) s =
     (if listening s then onUncaughtException found msg stack s else s)"
| "step cdv fmt (UnhandledRejection found msg stack) s =
     (if listening s then onUnhandledRejection found msg stack s else s)"
| "step cdv fmt (PollingRun now hasCellCompleted found) s =
     awaitNotebookCompleted now hasCellCompleted found s"
| "step cdv fmt (ResumeReport k) s = resumeReport fmt k s"

text \<open>A run: the actions of a list, one after the other.\<close>

definition run ::
  "('a JsValue \<Rightarrow> 'v) \<Rightarrow> (ErrorReport \<Rightarrow> string option \<times> string) \<Rightarrow> 'a Action list
     \<Rightarrow> 'v CodeEvaluator \<Rightarrow> 'v CodeEvaluator" where
  "run cdv fmt as s = fold (step cdv fmt) as s"

section \<open>The evaluation supervisor\<close>

text \<open>
  The server process keeps two global tables indexed by notebook id, \<open>workers\<close> and
  \<open>messages\<close>. A queued message is \<open>{ name, args, notebookId }\<close>. Its \<open>args\<close> are JSON:
  the two shapes the supervisor itself builds have their own constructors, and
  \<open>OtherArgs\<close> stands for any other value a worker sends.
\<close>

datatype 'p EventArgs =
    ReceiveError string
  | NotebookEvalCompleted
  | OtherArgs 'p

record 'p QueuedMessage =
  msg_name :: string
  msg_args :: "'p EventArgs"
  msg_notebookId :: string

text \<open>
  A message a worker sends to the server: \<open>{ workerId, event, args }\<close>, where \<open>args\<close> is
  the notebook event \<open>{ notebookId, name, args }\<close>.
\<close>

record 'p WorkerMessage =
  message_workerId :: "string option"
  message_event :: string
  message_args :: "'p QueuedMessage"

text \<open>
  Workers are numbered in the order they are forked. Besides the two tables the state
  holds what the closures and timers of \<open>forkEvalWorker\<close> and \<open>onWorkerCompletion\<close>
  hold: for each forked worker the \<open>notebookId\<close> its handlers close over, whether its
  \<open>notebookTimeout\<close> timer is still set, the pending one-minute clean-up timers (oldest
  first), and the calls of \<open>worker.kill()\<close>.
\<close>

record 'p Supervisor =
  workers :: "string \<rightharpoonup> nat"
  messages :: "string \<rightharpoonup> 'p QueuedMessage list"
  nextWorker :: nat
  closureNotebookId :: "nat \<rightharpoonup> string"
  notebookTimeout :: "nat set"
  cleanupTimers :: "string list"
  killed :: "nat list"

definition initialSupervisor :: "'p Supervisor" where
  "initialSupervisor =
     \<lparr>workers = Map.empty, messages = Map.empty, nextWorker = 0,
      closureNotebookId = Map.empty, notebookTimeout = {}, cleanupTimers = [], killed = []\<rparr>"

definition errorEvent :: "string \<Rightarrow> 'p QueuedMessage" where
  "errorEvent notebookId =
     \<lparr>msg_name = ''evaluation-event'',
      msg_args = ReceiveError ''Notebook evaluation terminated unexpectedly.'',
      msg_notebookId = notebookId\<rparr>"

definition completedEvent :: "string \<Rightarrow> 'p QueuedMessage" where
  "completedEvent notebookId =
     \<lparr>msg_name = ''evaluation-event'',
      msg_args = NotebookEvalCompleted,
      msg_notebookId = notebookId\<rparr>"

text \<open>\<open>messages[notebookId].push(m)\<close>, for a queue that exists.\<close>

definition push :: "string \<Rightarrow> 'p QueuedMessage \<Rightarrow> 'p Supervisor \<Rightarrow> 'p Supervisor" where
  "push notebookId m s =
     (case messages s notebookId of
        None \<Rightarrow> s
      | Some q \<Rightarrow> s\<lparr>messages := (messages s)(notebookId \<mapsto> q @ [m])\<rparr>)"

definition onWorkerCompletion :: "string \<Rightarrow> 'p Supervisor \<Rightarrow> 'p Supervisor" where
  "onWorkerCompletion notebookId s =
     s\<lparr>workers := (workers s)(notebookId := None),
       cleanupTimers := cleanupTimers s @ [notebookId]\<rparr>"

definition onUnexpectedWorkerCompletion :: "string \<Rightarrow> 'p Supervisor \<Rightarrow> 'p Supervisor" where
  "onUnexpectedWorkerCompletion notebookId s =
     (let s1 = onWorkerCompletion notebookId s in
      if messages s1 notebookId \<noteq> None
      then push notebookId (completedEvent notebookId) (push notebookId (errorEvent notebookId) s1)
      else s1)"

definition onNotebookTimeout :: "string \<Rightarrow> 'p Supervisor \<Rightarrow> 'p Supervisor" where
  "onNotebookTimeout notebookId s =
     (let s1 = onWorkerCompletion notebookId s in
      if messages s1 notebookId \<noteq> None
      then push notebookId (completedEvent notebookId) (push notebookId (errorEvent notebookId) s1)
      else s1)"

definition onNotebookEvent :: "'p QueuedMessage \<Rightarrow> 'p Supervisor \<Rightarrow> 'p Supervisor" where
  "onNotebookEvent ev s =
     (let notebookId = msg_notebookId ev in
      if messages s notebookId \<noteq> None
      then push notebookId
             \<lparr>msg_name = msg_name ev, msg_args = msg_args ev, msg_notebookId = notebookId\<rparr> s
      else s)"

text \<open>\<open>forkEvalWorker\<close>: registers the new worker and sets its timeout timer.\<close>

definition forkEvalWorker :: "string \<Rightarrow> 'p Supervisor \<Rightarrow> 'p Supervisor" where
  "forkEvalWorker notebookId s =
     (let worker = nextWorker s in
      s\<lparr>workers := (workers s)(notebookId \<mapsto> worker),
        messages := (messages s)(notebookId \<mapsto> []),
        nextWorker := worker + 1,
        closureNotebookId := (closureNotebookId s)(worker \<mapsto> notebookId),
        notebookTimeout := insert worker (notebookTimeout s)\<rparr>)"

text \<open>The timer callback of a worker; it runs only while the timer is set.\<close>

definition timeoutExpires :: "nat \<Rightarrow> 'p Supervisor \<Rightarrow> 'p Supervisor" where
  "timeoutExpires worker s =
     (case closureNotebookId s worker of
        None \<Rightarrow> s
      | Some notebookId \<Rightarrow>
          if worker \<in> notebookTimeout s
          then (let s1 = onNotebookTimeout notebookId s;
                    s2 = s1\<lparr>killed := killed s1 @ [worker]\<rparr>
                in s2\<lparr>notebookTimeout := notebookTimeout s2 - {worker}\<rparr>)
          else s)"

text \<open>The handler of a worker's \<open>exit\<close> event.\<close>

definition workerExit :: "nat \<Rightarrow> 'p Supervisor \<Rightarrow> 'p Supervisor" where
  "workerExit worker s =
     (case closureNotebookId s worker of
        None \<Rightarrow> s
      | Some notebookId \<Rightarrow>
          if workers s notebookId \<noteq> None
          then onUnexpectedWorkerCompletion notebookId
                 (s\<lparr>notebookTimeout := notebookTimeout s - {worker}\<rparr>)
          else s)"

text \<open>The handler of a worker's \<open>message\<close> event.\<close>

definition workerMessage :: "nat \<Rightarrow> 'p WorkerMessage \<Rightarrow> 'p Supervisor \<Rightarrow> 'p Supervisor" where
  "workerMessage worker message s =
     (case closureNotebookId s worker of
        None \<Rightarrow> s
      | Some notebookId \<Rightarrow>
          (case message_workerId message of
             None \<Rightarrow> s
           | Some workerId \<Rightarrow>
               if workers s notebookId = None then s
               else if message_event message = ''notebook-event''
               then onNotebookEvent (message_args message) s
               else if message_event message = ''completed''
               then onWorkerCompletion workerId (s\<lparr>notebookTimeout := notebookTimeout s - {worker}\<rparr>)
               else s))"

text \<open>\<open>killWorkers\<close>.\<close>

definition killWorkers :: "string \<Rightarrow> 'p Supervisor \<Rightarrow> 'p Supervisor" where
  "killWorkers notebookId s =
     (case workers s notebookId of
        None \<Rightarrow> s
      | Some worker \<Rightarrow>
          (let s1 = onWorkerCompletion notebookId s in s1\<lparr>killed := killed s1 @ [worker]\<rparr>))"

text \<open>The oldest clean-up timer of \<open>onWorkerCompletion\<close> fires.\<close>

definition cleanupExpires :: "'p Supervisor \<Rightarrow> 'p Supervisor" where
  "cleanupExpires s =
     (case cleanupTimers s of
        [] \<Rightarrow> s
      | notebookId # rest \<Rightarrow>
          s\<lparr>messages := (messages s)(notebookId := None), cleanupTimers := rest\<rparr>)"

text \<open>
  The HTTP routes: \<open>GET /status\<close> (the notebook ids with a worker entry),
  \<open>POST /messages\<close>, \<open>POST /evaluate\<close> and \<open>POST /stop-evaluation\<close>.
\<close>

definition status :: "'p Supervisor \<Rightarrow> string set" where
  "status s = dom (workers s)"


definition evaluate :: "string \<Rightarrow> 'p Supervisor \<Rightarrow> 'p Supervisor" where
  "evaluate notebookId s = forkEvalWorker notebookId (killWorkers notebookId s)"

definition stopEvaluation :: "string \<Rightarrow> 'p Supervisor \<Rightarrow> 'p Supervisor" where
  "stopEvaluation notebookId s = killWorkers notebookId s"

section \<open>Notions used to state the properties\<close>

text \<open>A sequence of calls of \<open>display\<close>, and the events they raise when none is suppressed.\<close>

definition displayCalls :: "(nat option \<times> 'a JsValue list) list \<Rightarrow> 'a Action list" where
  "displayCalls calls = map (\<lambda>(found, args). CallDisplay found args) calls"

definition displayEvents ::
  "('a JsValue \<Rightarrow> 'v) \<Rightarrow> 'v CodeEvaluator \<Rightarrow> (nat option \<times> 'a JsValue list) list \<Rightarrow> 'v Event list" where
  "displayEvents cdv s calls =
     map (\<lambda>(found, args). Display (getCurCellId found s) (map cdv args)) calls"

definition isDisplay :: "'v Event \<Rightarrow> bool" where
  "isDisplay e = (case e of Display c vs \<Rightarrow> True | _ \<Rightarrow> False)"

text \<open>The owner assigns all six handlers.\<close>

definition setHandlers :: "'v CodeEvaluator \<Rightarrow> 'v CodeEvaluator" where
  "setHandlers s =
     s\<lparr>onCellEvalStarted := True, onCellEvalEnded := True, onEvaluationCompleted := True,
       onOutputCapped := True, onDisplay := True, onError := True\<rparr>"

text \<open>
  The generated unit described piece by piece, in the words of the specification: the
  code cells; every line of every code cell that matches the import grammar, in cell
  order and with repetitions; the hoisted block, one line per import; the text emitted
  for one cell and for a list of cells; and what follows the last cell.
\<close>

definition codeCells :: "ICell list \<Rightarrow> ICell list" where
  "codeCells allCells = filter (\<lambda>cell. getCellType cell = Code) allCells"

definition importLinesOf :: "(string \<Rightarrow> bool) \<Rightarrow> ICell list \<Rightarrow> string list" where
  "importLinesOf isModuleImportStatement allCells =
     concat (map (\<lambda>cell. filter isModuleImportStatement (split_nl (getText cell)))
                 (codeCells allCells))"

definition hoistedImports :: "(string \<Rightarrow> bool) \<Rightarrow> ICell list \<Rightarrow> string" where
  "hoistedImports isModuleImportStatement allCells =
     concat (map (\<lambda>line. trimRight line @ CRLF) (importLinesOf isModuleImportStatement allCells))"

definition cellUnit :: "(string \<Rightarrow> bool) \<Rightarrow> bool \<Rightarrow> nat \<Rightarrow> ICell \<Rightarrow> string" where
  "cellUnit isModuleImportStatement forExport cellIndex cell =
     (if forExport then [] else preCellCode cellIndex cell) @
     cellCode isModuleImportStatement cell @
     (if \<not> forExport \<and> getCellScope cell \<noteq> Local then captureLocalsCode cellIndex cell else [])"

fun cellUnits :: "(string \<Rightarrow> bool) \<Rightarrow> bool \<Rightarrow> nat \<Rightarrow> ICell list \<Rightarrow> string" where
  "cellUnits isModuleImportStatement forExport cellIndex [] = []"
| "cellUnits isModuleImportStatement forExport cellIndex (cell # rest) =
     cellUnit isModuleImportStatement forExport cellIndex cell @
     cellUnits isModuleImportStatement forExport (cellIndex + 1) rest"

definition unitTail :: "bool \<Rightarrow> nat \<Rightarrow> string" where
  "unitTail forExport n =
     (if forExport then EXPORT_POST_CODE
      else ''__end();'' @ CRLF @ concat (replicate n (''});'' @ CRLF)) @ EVAL_POST_CODE)"

text \<open>
  The events raised for output; the events from the completion event on; the invariant
  that ties the completion event to \<open>notebookFinished\<close>; and the shape of what one
  action appends while the notebook has not finished: the completion event at most once,
  as the last event, and only when the action finishes the notebook.
\<close>

definition isOutputEvent :: "'v Event \<Rightarrow> bool" where
  "isOutputEvent e =
     (case e of Display c vs \<Rightarrow> True | Error c m \<Rightarrow> True | OutputCapped \<Rightarrow> True | _ \<Rightarrow> False)"

definition afterCompleted :: "'v Event list \<Rightarrow> 'v Event list" where
  "afterCompleted evs = dropWhile (\<lambda>e. e \<noteq> EvaluationCompleted) evs"

definition completionInvariant :: "'v CodeEvaluator \<Rightarrow> bool" where
  "completionInvariant s \<longleftrightarrow>
     (if notebookFinished s
      then count_list (emitted s) EvaluationCompleted \<le> 1
         \<and> (\<forall>e \<in> set (afterCompleted (emitted s)). e = EvaluationCompleted \<or> isOutputEvent e)
      else EvaluationCompleted \<notin> set (emitted s))"

definition completedAtMostLast :: "'v Event list \<Rightarrow> bool \<Rightarrow> bool" where
  "completedAtMostLast new finished \<longleftrightarrow>
     (\<exists>pre. (new = pre \<or> new = pre @ [EvaluationCompleted] \<and> finished)
          \<and> (\<forall>e \<in> set pre. e \<noteq> EvaluationCompleted))"

section \<open>Example data\<close>

text \<open>
  A stand-in for \<open>isModuleImportStatement\<close>, and a notebook of two code cells that
  import the same module (the second time with trailing blanks, in a locally scoped cell)
  around a markdown cell.
\<close>

definition demoIsImport :: "string \<Rightarrow> bool" where
  "demoIsImport line = (take 7 line = ''import '')"





text \<open>The two cells \<open>let x = 1;\<close> and \<open>display(x)\<close>.\<close>

definition letCell :: ICell where
  "letCell = \<lparr>getId = ''c0'', getCellType = Code, getCellScope = Global, getText = ''let x = 1;''\<rparr>"

definition displayCell :: ICell where
  "displayCell = \<lparr>getId = ''c1'', getCellType = Code, getCellScope = Global, getText = ''display(x)''\<rparr>"

text \<open>
  A notebook of one code cell; stand-ins for \<open>formatErrorMessage\<close> and
  \<open>convertDisplayValue\<close>; the evaluator of the notebook with all handlers set, without
  and with a time limit of 100 milliseconds; and the first of them after 1001 calls of
  \<open>display\<close>.
\<close>

definition demoCell :: ICell where
  "demoCell = \<lparr>getId = ''c0'', getCellType = Code, getCellScope = Global, getText = ''display(1)''\<rparr>"

definition demoFmt :: "ErrorReport \<Rightarrow> string option \<times> string" where
  "demoFmt r = (curCellId r, case errorMessage r of None \<Rightarrow> [] | Some m \<Rightarrow> m)"

definition demoCdv :: "unit JsValue \<Rightarrow> unit JsValue" where
  "demoCdv v = v"

definition demoEvaluator :: "unit JsValue CodeEvaluator" where
  "demoEvaluator = setHandlers (projr (newCodeEvaluator [demoCell] None))"

definition demoTimedEvaluator :: "unit JsValue CodeEvaluator" where
  "demoTimedEvaluator = setHandlers (projr (newCodeEvaluator [demoCell] (Some 100)))"


text \<open>An event of notebook \<open>n\<close> and the worker message that carries it.\<close>

definition demoEvent :: "unit QueuedMessage" where
  "demoEvent = \<lparr>msg_name = ''evaluation-event'', msg_args = OtherArgs (), msg_notebookId = ''n''\<rparr>"

definition demoMessage :: "unit WorkerMessage" where
  "demoMessage = \<lparr>message_workerId = Some ''n'', message_event = ''notebook-event'', message_args = demoEvent\<rparr>"

text \<open>The message by which the worker of notebook \<open>n\<close> reports that it has completed.\<close>

definition completedMessage :: "unit WorkerMessage" where
  "completedMessage = \<lparr>message_workerId = Some ''n'', message_event = ''completed'', message_args = demoEvent\<rparr>"

text \<open>
  A predicate that depends on trailing white space, and a cell whose only line ends in
  a blank.
\<close>

definition trailingIsImport :: "string \<Rightarrow> bool" where
  "trailingIsImport line = (line = ''import a '')"

definition trailingCell :: ICell where
  "trailingCell = \<lparr>getId = ''t'', getCellType = Code, getCellScope = Global, getText = ''import a ''\<rparr>"

section \<open>Properties of the evaluator's constructor\<close>

lemma filter_code_empty:
  "filter (\<lambda>cell. getCellType cell = Code) allCells = []
     \<longleftrightarrow> (\<forall>cell \<in> set allCells. getCellType cell \<noteq> Code)"
  by (simp add: filter_empty_conv)

text \<open>
  C9. For a notebook without code cells the constructor of the evaluator throws
  \<open>Need some code cells!\<close>: no evaluator exists on which code could be generated or run,
  and the empty notebook is not a successful empty evaluation. The constructor throws in
  no other case.
\<close>

theorem no_code_cells_is_an_error:
  "(newCodeEvaluator allCells timeoutMs = (Inl NeedSomeCodeCells :: EvalError + 'v CodeEvaluator))
     \<longleftrightarrow> (\<forall>cell \<in> set allCells. getCellType cell \<noteq> Code)"
  by (simp add: newCodeEvaluator_def Let_def filter_code_empty)

theorem no_code_cells_is_an_error_witness:
  "newCodeEvaluator
     [\<lparr>getId = ''m1'', getCellType = Markdown, getCellScope = Global, getText = ''# title''\<rparr>] None
     = (Inl NeedSomeCodeCells :: EvalError + unit CodeEvaluator)
   \<and> newCodeEvaluator [] (Some 100) = (Inl NeedSomeCodeCells :: EvalError + unit CodeEvaluator)"
  using no_code_cells_is_an_error
          [of "[\<lparr>getId = ''m1'', getCellType = Markdown, getCellScope = Global,
                 getText = ''# title''\<rparr>]" None, where ?'v = unit]
        no_code_cells_is_an_error [of "[]" "Some 100", where ?'v = unit]
  by simp

section \<open>Hoisting of import statements\<close>

lemma emit_code [simp]: "gen_code (emit piece g) = gen_code g @ piece"
  by (simp add: emit_def)

lemma join_terminated:
  "ls \<noteq> [] \<Longrightarrow> join sep ls @ sep = concat (map (\<lambda>l. l @ sep) ls)"
  by (induction sep ls rule: join.induct) simp_all

lemma hoistCell_code:
  "gen_code (hoistCell isImp cell g) =
     gen_code g @ concat (map (\<lambda>line. trimRight line @ CRLF) (filter isImp (split_nl (getText cell))))"
proof (cases "filter isImp (split_nl (getText cell)) = []")
  case True
  then show ?thesis by (simp add: hoistCell_def moduleImportLines_def)
next
  case False
  then have ne: "moduleImportLines isImp cell \<noteq> []" by (simp add: moduleImportLines_def)
  have "join CRLF (moduleImportLines isImp cell) @ CRLF
      = concat (map (\<lambda>l. l @ CRLF) (moduleImportLines isImp cell))"
    using ne by (rule join_terminated)
  also have "\<dots> = concat (map (\<lambda>line. trimRight line @ CRLF) (filter isImp (split_nl (getText cell))))"
    by (simp add: moduleImportLines_def comp_def)
  finally show ?thesis using ne by (simp add: hoistCell_def Let_def)
qed

lemma fold_hoistCell_code:
  "gen_code (fold (hoistCell isImp) cs g) =
     gen_code g @ concat (map (\<lambda>line. trimRight line @ CRLF)
                            (concat (map (\<lambda>cell. filter isImp (split_nl (getText cell))) cs)))"
  by (induction cs arbitrary: g) (simp_all add: hoistCell_code)

lemma genCell_code:
  "gen_code (genCell isImp forExport cellIndex cell g) =
     gen_code g @ cellUnit isImp forExport cellIndex cell"
  by (simp add: genCell_def cellUnit_def Let_def)

lemma genCells_code:
  "gen_code (genCells isImp forExport cellIndex cs g) =
     gen_code g @ cellUnits isImp forExport cellIndex cs"
  by (induction cs arbitrary: cellIndex g) (simp_all add: genCell_code)

lemma closeCells_code:
  "gen_code (closeCells n g) = gen_code g @ concat (replicate n (''});'' @ CRLF))"
  by (induction n arbitrary: g) simp_all

lemma internalGenCode_code:
  "gen_code (internalGenCode isImp allCells forExport) =
     hoistedImports isImp allCells @
     (if forExport then EXPORT_PRE_CODE else EVAL_PRE_CODE) @
     cellUnits isImp forExport 0 (codeCells allCells) @
     unitTail forExport (length (codeCells allCells))"
  by (simp add: internalGenCode_def Let_def fold_hoistCell_code genCells_code closeCells_code
      hoistedImports_def importLinesOf_def codeCells_def unitTail_def EXPORT_HEADER_def)


lemma showNat_0: "showNat 0 = ''0''"
  by code_simp

lemma showNat_1: "showNat (Suc 0) = ''1''"
  by code_simp



text \<open>
  Why the grammar must not depend on trailing white space: the first loop tests the line
  as it stands and the second tests the right-trimmed line. For a predicate that matches
  only with the trailing blank, the line is hoisted and also stays in the cell.
\<close>

lemma hoisted_but_kept_example:
  "hoistedImports trailingIsImport [trailingCell] = ''import a'' @ CRLF
   \<and> codeLines trailingIsImport trailingCell = [''import a'']"
  by (simp add: hoistedImports_def importLinesOf_def codeCells_def codeLines_def trailingCell_def
      trailingIsImport_def trimRight_def isWhiteSpace_def)

text \<open>
  The unit generated for the two cells \<open>let x = 1;\<close> and \<open>display(x)\<close>: the call of
  \<open>__cell\<close> for the second cell stands inside the function of the first, after its
  \<open>let\<close>, and the function handed to \<open>__capture_locals\<close> is \<open>() => ({})\<close>.
\<close>

lemma two_cells_generated_code:
  "gen_code (internalGenCode demoIsImport [letCell, displayCell] False) =
     ''const wrapperFn = (async function () {'' @ CRLF @
     ''__cell(0, '' @ DQ @ ''c0'' @ DQ @ '', async () => {'' @ CRLF @
     ''let x = 1;'' @ CRLF @
     ''__capture_locals(0, '' @ DQ @ ''c0'' @ DQ @ '', () => ({}));'' @ CRLF @
     ''__cell(1, '' @ DQ @ ''c1'' @ DQ @ '', async () => {'' @ CRLF @
     ''display(x)'' @ CRLF @
     ''__capture_locals(1, '' @ DQ @ ''c1'' @ DQ @ '', () => ({}));'' @ CRLF @
     ''__end();'' @ CRLF @
     ''});'' @ CRLF @
     ''});'' @ CRLF @
     CRLF @
     ''})''"
  by (simp add: internalGenCode_code letCell_def displayCell_def demoIsImport_def
      hoistedImports_def importLinesOf_def codeCells_def cellUnit_def unitTail_def
      codeLines_def cellCode_def preCellCode_def captureLocalsCode_def trimRight_def
      isWhiteSpace_def EVAL_PRE_CODE_def EVAL_POST_CODE_def Let_def
      showNat_0 showNat_1 del: showNat.simps)

text \<open>
  What \<open>captureLocals\<close> leaves in the global bindings: every captured key is bound to
  its value, every other binding is kept. With no keys nothing changes.
\<close>

lemma captureLocals_fold:
  "fold (\<lambda>key g. g(key := map_of locals key)) keys global k =
     (if k \<in> set keys then map_of locals k else global k)"
  by (induction keys arbitrary: global) auto

lemma captureLocals_bindings:
  "captureLocals locals global k =
     (case map_of locals k of None \<Rightarrow> global k | Some v \<Rightarrow> Some v)"
proof (cases "map_of locals k")
  case None
  then have "k \<notin> set (map fst locals)" by (simp add: map_of_eq_None_iff)
  then show ?thesis using None by (simp add: captureLocals_def captureLocals_fold)
next
  case (Some v)
  then have "k \<in> set (map fst locals)" by (metis map_of_eq_None_iff option.distinct(1) set_map)
  then show ?thesis using Some by (simp add: captureLocals_def captureLocals_fold)
qed

lemma captureLocals_empty: "captureLocals [] global = global"
  by (simp add: captureLocals_def)

section \<open>The output cap\<close>

lemma getCurCellId_cong:
  "cellIds s' = cellIds s \<Longrightarrow> getCurCellId found s' = getCurCellId found s"
  by (simp add: getCurCellId_def Let_def)

lemma displayEvents_cong:
  assumes "cellIds s' = cellIds s"
  shows "displayEvents cdv s' calls = displayEvents cdv s calls"
proof -
  have "\<And>found. getCurCellId found s' = getCurCellId found s"
    using assms by (rule getCurCellId_cong)
  then show ?thesis by (simp add: displayEvents_def)
qed

lemma display_below_cap:
  "\<not> outputsCapped s \<Longrightarrow> numOutputs s < MAX_OUTPUTS \<Longrightarrow> onDisplay s \<Longrightarrow>
   display cdv found args s =
     s\<lparr>numOutputs := numOutputs s + 1,
       emitted := emitted s @ [Display (getCurCellId found s) (map cdv args)]\<rparr>"
  by (simp add: display_def isOutputCapped_def notify_def getCurCellId_def Let_def)

lemma display_at_cap:
  "\<not> outputsCapped s \<Longrightarrow> MAX_OUTPUTS \<le> numOutputs s \<Longrightarrow> onOutputCapped s \<Longrightarrow>
   display cdv found args s = s\<lparr>emitted := emitted s @ [OutputCapped], outputsCapped := True\<rparr>"
  by (simp add: display_def isOutputCapped_def notify_def)

lemma display_capped: "outputsCapped s \<Longrightarrow> display cdv found args s = s"
  by (simp add: display_def isOutputCapped_def)

lemma stdoutWriteOverride_capped:
  "outputsCapped s \<Longrightarrow> stdoutWriteOverride cdv found chunk ret s = (True, s)"
  by (simp add: stdoutWriteOverride_def isOutputCapped_def)

lemma stderrWriteOverride_capped:
  "outputsCapped s \<Longrightarrow> stderrWriteOverride found chunk ret s = (True, s)"
  by (simp add: stderrWriteOverride_def isOutputCapped_def)

lemma run_append: "run cdv fmt (as @ bs) s = run cdv fmt bs (run cdv fmt as s)"
  by (simp add: run_def)

lemma run_Cons: "run cdv fmt (a # as) s = run cdv fmt as (step cdv fmt a s)"
  by (simp add: run_def)

lemma run_Nil: "run cdv fmt [] s = s"
  by (simp add: run_def)

lemma run_displays_below_cap:
  "\<not> outputsCapped s \<Longrightarrow> onDisplay s \<Longrightarrow> numOutputs s + length calls \<le> MAX_OUTPUTS \<Longrightarrow>
   run cdv fmt (displayCalls calls) s =
     s\<lparr>numOutputs := numOutputs s + length calls,
       emitted := emitted s @ displayEvents cdv s calls\<rparr>"
proof (induction calls arbitrary: s)
  case Nil
  then show ?case by (simp add: displayCalls_def displayEvents_def run_Nil)
next
  case (Cons c calls)
  obtain found args where c: "c = (found, args)" by (cases c)
  let ?s1 = "display cdv found args s"
  have lt: "numOutputs s < MAX_OUTPUTS" using Cons.prems by simp
  have s1: "?s1 = s\<lparr>numOutputs := numOutputs s + 1,
       emitted := emitted s @ [Display (getCurCellId found s) (map cdv args)]\<rparr>"
    using Cons.prems lt by (simp add: display_below_cap)
  have ev: "displayEvents cdv ?s1 calls = displayEvents cdv s calls"
    by (rule displayEvents_cong) (simp add: s1)
  have "run cdv fmt (displayCalls (c # calls)) s = run cdv fmt (displayCalls calls) ?s1"
    by (simp add: c displayCalls_def run_Cons)
  also have "\<dots> = ?s1\<lparr>numOutputs := numOutputs ?s1 + length calls,
       emitted := emitted ?s1 @ displayEvents cdv ?s1 calls\<rparr>"
    using Cons.prems by (intro Cons.IH) (simp_all add: s1)
  also have "\<dots> = s\<lparr>numOutputs := numOutputs s + length (c # calls),
       emitted := emitted s @ displayEvents cdv s (c # calls)\<rparr>"
    unfolding ev by (simp add: s1 c displayEvents_def)
  finally show ?case .
qed

lemma run_1001_displays:
  assumes "onDisplay s" "onOutputCapped s" "numOutputs s = 0" "\<not> outputsCapped s"
    and len: "length calls = 1001"
  shows "run cdv fmt (displayCalls calls) s =
     s\<lparr>numOutputs := 1000,
       emitted := emitted s @ displayEvents cdv s (take 1000 calls) @ [OutputCapped],
       outputsCapped := True\<rparr>"
proof -
  obtain found args where lastc: "drop 1000 calls = [(found, args)]"
  proof -
    have "length (drop 1000 calls) = 1" using len by simp
    then obtain c where "drop 1000 calls = [c]"
      by (cases "drop 1000 calls") auto
    then show ?thesis using that by (cases c) auto
  qed
  have split: "calls = take 1000 calls @ [(found, args)]"
    using lastc by (metis append_take_drop_id)
  let ?s1 = "run cdv fmt (displayCalls (take 1000 calls)) s"
  have s1: "?s1 = s\<lparr>numOutputs := numOutputs s + length (take 1000 calls),
       emitted := emitted s @ displayEvents cdv s (take 1000 calls)\<rparr>"
    using assms by (intro run_displays_below_cap) (simp_all add: MAX_OUTPUTS_def)
  have n1: "numOutputs ?s1 = 1000" using assms by (simp add: s1)
  have "run cdv fmt (displayCalls calls) s = display cdv found args ?s1"
  proof -
    have "displayCalls calls = displayCalls (take 1000 calls) @ [CallDisplay found args]"
      by (subst split) (simp add: displayCalls_def)
    then show ?thesis by (simp add: run_append run_Cons run_Nil)
  qed
  also have "\<dots> = ?s1\<lparr>emitted := emitted ?s1 @ [OutputCapped], outputsCapped := True\<rparr>"
    using assms n1 by (intro display_at_cap) (simp_all add: s1 MAX_OUTPUTS_def)
  also have "\<dots> = s\<lparr>numOutputs := 1000,
       emitted := emitted s @ displayEvents cdv s (take 1000 calls) @ [OutputCapped],
       outputsCapped := True\<rparr>"
    using assms len by (simp add: s1)
  finally show ?thesis .
qed

lemma displayEvents_all_display: "filter isDisplay (displayEvents cdv s calls) = displayEvents cdv s calls"
  by (induction calls) (auto simp: displayEvents_def isDisplay_def)

lemma displayEvents_no_capped: "filter (\<lambda>e. e = OutputCapped) (displayEvents cdv s calls) = []"
  by (induction calls) (auto simp: displayEvents_def)

lemma demoEvaluator_eq:
  "demoEvaluator =
     \<lparr>onCellEvalStarted = True, onCellEvalEnded = True,
      onEvaluationCompleted = True, onOutputCapped = True,
      onDisplay = True, onError = True,
      numCells = 1, numOutputs = 0, outputsCapped = False,
      notebookCompleted = False, notebookFinished = False,
      cells = [demoCell], cellIds = [''c0''],
      cellsCompleted = [False],
      localsFnCache = [False],
      timeout = None, startTime = None, emitted = [],
      oldStdoutWrites = [], oldStderrWrites = [],
      outputOverridden = False, listening = False,
      suspendedReports = [], pollingTimers = 0\<rparr>"
  by (simp add: demoEvaluator_def setHandlers_def newCodeEvaluator_def demoCell_def)

text \<open>
  C2. When exactly 1001 calls of \<open>display\<close> are made in an evaluation that has produced
  no output before, with the display and output-capped handlers set, the handlers receive
  exactly the display events of the first 1000 calls followed by one output-capped event:
  1000 display events, one output-capped event, and nothing after it. From then on a call
  of \<open>display\<close> or a write to either stream raises no event: it leaves the evaluator as
  it is.
\<close>

theorem output_cap_1001:
  assumes "onDisplay s" and "onOutputCapped s" and "numOutputs s = 0" and "\<not> outputsCapped s"
    and "length calls = 1001"
  shows "(\<exists>new. emitted (run cdv fmt (displayCalls calls) s) = emitted s @ new
           \<and> new = displayEvents cdv s (take 1000 calls) @ [OutputCapped]
           \<and> length (filter isDisplay new) = 1000
           \<and> length (filter (\<lambda>e. e = OutputCapped) new) = 1)
       \<and> outputsCapped (run cdv fmt (displayCalls calls) s)
       \<and> (\<forall>found args. display cdv found args (run cdv fmt (displayCalls calls) s)
             = run cdv fmt (displayCalls calls) s)
       \<and> (\<forall>found chunk ret. snd (stdoutWriteOverride cdv found chunk ret (run cdv fmt (displayCalls calls) s))
             = run cdv fmt (displayCalls calls) s)
       \<and> (\<forall>found chunk ret. snd (stderrWriteOverride found chunk ret (run cdv fmt (displayCalls calls) s))
             = run cdv fmt (displayCalls calls) s)"
proof -
  let ?s' = "run cdv fmt (displayCalls calls) s"
  have eq: "?s' = s\<lparr>numOutputs := 1000,
       emitted := emitted s @ displayEvents cdv s (take 1000 calls) @ [OutputCapped],
       outputsCapped := True\<rparr>"
    using assms by (rule run_1001_displays)
  have capped: "outputsCapped ?s'" by (simp add: eq)
  have len: "length (displayEvents cdv s (take 1000 calls)) = 1000"
    using assms(5) by (simp add: displayEvents_def)
  have a: "emitted ?s' = emitted s @ (displayEvents cdv s (take 1000 calls) @ [OutputCapped])"
    by (simp add: eq)
  have b: "length (filter isDisplay (displayEvents cdv s (take 1000 calls) @ [OutputCapped])) = 1000"
    by (simp add: displayEvents_all_display len isDisplay_def)
  have c: "length (filter (\<lambda>e. e = OutputCapped) (displayEvents cdv s (take 1000 calls) @ [OutputCapped])) = 1"
    by (simp add: displayEvents_no_capped)
  show ?thesis
    using a b c capped
    by (simp add: display_capped stdoutWriteOverride_capped stderrWriteOverride_capped)
qed

theorem output_cap_1001_witness:
  "emitted (run demoCdv demoFmt (displayCalls (replicate 1001 (None, [JsString ''x'']))) demoEvaluator)
     = replicate 1000 (Display (Some ''c0'') [JsString ''x'']) @ [OutputCapped]
   \<and> outputsCapped (run demoCdv demoFmt (displayCalls (replicate 1001 (None, [JsString ''x'']))) demoEvaluator)"
  using output_cap_1001 [of demoEvaluator "replicate 1001 (None, [JsString ''x''])" demoCdv demoFmt]
  by (simp add: demoEvaluator_eq displayEvents_def getCurCellId_def demoCdv_def)

section \<open>Stream writes and the output cap\<close>









section \<open>The completion flags of the cells\<close>

lemma notify_cellsCompleted [simp]: "cellsCompleted (notify h e s) = cellsCompleted s"
  by (simp add: notify_def)

lemma onFinished_cellsCompleted [simp]: "cellsCompleted (onFinished s) = cellsCompleted s"
  by (simp add: onFinished_def restoreOutput_def Let_def)

lemma reportError_cellsCompleted [simp]: "cellsCompleted (reportError r s) = cellsCompleted s"
  by (simp add: reportError_def)

lemma isOutputCapped_cellsCompleted [simp]:
  "cellsCompleted (snd (isOutputCapped s)) = cellsCompleted s"
  by (simp add: isOutputCapped_def)

lemma display_cellsCompleted [simp]: "cellsCompleted (display cdv found args s) = cellsCompleted s"
  by (simp add: display_def isOutputCapped_def split: prod.splits)

lemma stdout_cellsCompleted [simp]:
  "cellsCompleted (snd (stdoutWriteOverride cdv found chunk ret s)) = cellsCompleted s"
  by (simp add: stdoutWriteOverride_def isOutputCapped_def Let_def split: prod.splits)

lemma stderr_cellsCompleted [simp]:
  "cellsCompleted (snd (stderrWriteOverride found chunk ret s)) = cellsCompleted s"
  by (simp add: stderrWriteOverride_def isOutputCapped_def Let_def split: prod.splits)

lemma pollCell_cellsCompleted:
  "cellsCompleted (fst (pollCell hc i (s, b))) =
     (if \<not> cellsCompleted s ! i \<and> hc i then (cellsCompleted s)[i := True] else cellsCompleted s)"
  by (simp add: pollCell_def)

lemma fold_pollCell_length:
  "length (cellsCompleted (fst (fold (pollCell hc) is st))) = length (cellsCompleted (fst st))"
proof (induction "is" arbitrary: st)
  case Nil
  then show ?case by simp
next
  case (Cons i "is")
  obtain s b where st: "st = (s, b)" by (cases st)
  show ?case
    by (simp add: Cons.IH st pollCell_cellsCompleted)
qed

lemma fold_pollCell_mono:
  "cellsCompleted (fst st) ! k \<Longrightarrow> k < length (cellsCompleted (fst st)) \<Longrightarrow>
   cellsCompleted (fst (fold (pollCell hc) is st)) ! k"
proof (induction "is" arbitrary: st)
  case Nil
  then show ?case by simp
next
  case (Cons i "is")
  obtain s b where st: "st = (s, b)" by (cases st)
  have "cellsCompleted (fst (pollCell hc i st)) ! k"
    using Cons.prems by (cases "i = k") (simp_all add: st pollCell_cellsCompleted)
  moreover have "k < length (cellsCompleted (fst (pollCell hc i st)))"
    using Cons.prems by (simp add: st pollCell_cellsCompleted)
  ultimately show ?case by (simp add: Cons.IH)
qed

lemma fold_pollCell_flip:
  "\<not> cellsCompleted (fst st) ! k \<Longrightarrow> cellsCompleted (fst (fold (pollCell hc) is st)) ! k \<Longrightarrow>
   hc k \<and> k \<in> set is"
proof (induction "is" arbitrary: st)
  case Nil
  then show ?case by simp
next
  case (Cons i "is")
  obtain s b where st: "st = (s, b)" by (cases st)
  show ?case
  proof (cases "cellsCompleted (fst (pollCell hc i st)) ! k")
    case True
    with Cons.prems(1) have "i = k \<and> hc i"
      by (cases "i = k") (auto simp: st pollCell_cellsCompleted split: if_splits)
    then show ?thesis by auto
  next
    case False
    from Cons.IH [OF False] Cons.prems(2) show ?thesis by simp
  qed
qed

lemma awaitNotebookCompleted_cellsCompleted:
  "cellsCompleted (awaitNotebookCompleted now hc found s) =
     (if notebookFinished s \<or> timedOut now s then cellsCompleted s
      else cellsCompleted (fst (fold (pollCell hc) [0..<numCells s] (s, True))))"
  by (simp add: awaitNotebookCompleted_def reportErrorSync_def split: prod.splits)

lemma step_cellsCompleted:
  "(\<exists>now hc found. a = PollingRun now hc found) \<or>
   cellsCompleted (step cdv fmt a s) = cellsCompleted s"
  by (cases a)
     (simp_all add: evalGeneratedCode_def wrapperFailed_def hook_cell_def cellFailed_def
        hook_capture_locals_def hook_end_def onUncaughtException_def onUnhandledRejection_def
        resumeReport_def reportErrorSync_def overrideOutput_def Let_def split: option.splits)

lemma step_length: "length (cellsCompleted (step cdv fmt a s)) = length (cellsCompleted s)"
proof (cases "\<exists>now hc found. a = PollingRun now hc found")
  case True
  then obtain now hc found where a: "a = PollingRun now hc found" by blast
  show ?thesis
    using fold_pollCell_length [of hc "[0..<numCells s]" "(s, True)"]
    by (simp add: a awaitNotebookCompleted_cellsCompleted)
next
  case False
  with step_cellsCompleted [of a cdv fmt s] show ?thesis by simp
qed

lemma step_mono:
  assumes "cellsCompleted s ! k" and "k < length (cellsCompleted s)"
  shows "cellsCompleted (step cdv fmt a s) ! k"
proof (cases "\<exists>now hc found. a = PollingRun now hc found")
  case True
  then obtain now hc found where a: "a = PollingRun now hc found" by blast
  show ?thesis
    using assms fold_pollCell_mono [of "(s, True)" k hc "[0..<numCells s]"]
    by (simp add: a awaitNotebookCompleted_cellsCompleted)
next
  case False
  with step_cellsCompleted [of a cdv fmt s] assms show ?thesis by simp
qed

lemma step_flip:
  assumes "\<not> cellsCompleted s ! k" and "cellsCompleted (step cdv fmt a s) ! k"
  shows "\<exists>now hc found. a = PollingRun now hc found \<and> hc k"
proof (cases "\<exists>now hc found. a = PollingRun now hc found")
  case True
  then obtain now hc found where a: "a = PollingRun now hc found" by blast
  have "hc k"
    using assms fold_pollCell_flip [of "(s, True)" k hc "[0..<numCells s]"]
    by (simp add: a awaitNotebookCompleted_cellsCompleted split: if_splits)
  then show ?thesis using a by blast
next
  case False
  with step_cellsCompleted [of a cdv fmt s] assms show ?thesis by simp
qed

lemma run_mono:
  "cellsCompleted s ! k \<Longrightarrow> k < length (cellsCompleted s) \<Longrightarrow>
   cellsCompleted (run cdv fmt as s) ! k \<and>
   length (cellsCompleted (run cdv fmt as s)) = length (cellsCompleted s)"
proof (induction as arbitrary: s)
  case Nil
  then show ?case by (simp add: run_def)
next
  case (Cons a as)
  have 1: "cellsCompleted (step cdv fmt a s) ! k" using Cons.prems by (rule step_mono)
  have 2: "k < length (cellsCompleted (step cdv fmt a s))" using Cons.prems by (simp add: step_length)
  from Cons.IH [OF 1 2] show ?case by (simp add: run_Cons step_length)
qed

lemma demoTimedEvaluator_eq:
  "demoTimedEvaluator =
     \<lparr>onCellEvalStarted = True, onCellEvalEnded = True,
      onEvaluationCompleted = True, onOutputCapped = True,
      onDisplay = True, onError = True,
      numCells = 1, numOutputs = 0, outputsCapped = False,
      notebookCompleted = False, notebookFinished = False,
      cells = [demoCell], cellIds = [''c0''],
      cellsCompleted = [False],
      localsFnCache = [False],
      timeout = Some 100, startTime = None, emitted = [],
      oldStdoutWrites = [], oldStderrWrites = [],
      outputOverridden = False, listening = False,
      suspendedReports = [], pollingTimers = 0\<rparr>"
  by (simp add: demoTimedEvaluator_def setHandlers_def newCodeEvaluator_def demoCell_def)

lemmas eval_defs =
  run_def evalGeneratedCode_def hook_cell_def hook_end_def hook_capture_locals_def
  cellFailed_def wrapperFailed_def onUncaughtException_def onUnhandledRejection_def
  awaitNotebookCompleted_def timedOut_def pollCell_def onFinished_def restoreOutput_def
  overrideOutput_def reportErrorSync_def reportError_def resumeReport_def notify_def
  getCurCellId_def display_def isOutputCapped_def stdoutWriteOverride_def
  stderrWriteOverride_def MAX_OUTPUTS_def Let_def

text \<open>
  C8. The completion flags are monotonic. The constructor starts every flag at
  \<open>false\<close>. A flag that is \<open>true\<close> stays \<open>true\<close> through every later sequence of
  actions of the evaluation. A flag changes from \<open>false\<close> to \<open>true\<close> only in a polling run
  in which the async tracker answers \<open>hasCellCompleted\<close> with \<open>true\<close> for that cell.
\<close>

theorem completion_flags_monotonic:
  "(\<forall>s0. newCodeEvaluator allCells timeoutMs = Inr (s0 :: 'v CodeEvaluator) \<longrightarrow>
        cellsCompleted s0 = replicate (numCells s0) False)
   \<and> (\<forall>k < length (cellsCompleted s). cellsCompleted s ! k \<longrightarrow>
        cellsCompleted (run cdv fmt as s) ! k)
   \<and> (\<forall>k. \<not> cellsCompleted s ! k \<and> cellsCompleted (step cdv fmt a s) ! k \<longrightarrow>
        (\<exists>now hasCellCompleted found. a = PollingRun now hasCellCompleted found \<and> hasCellCompleted k))"
proof (intro conjI allI impI)
  fix s0 :: "'v CodeEvaluator"
  assume "newCodeEvaluator allCells timeoutMs = Inr s0"
  then show "cellsCompleted s0 = replicate (numCells s0) False"
    by (auto simp: newCodeEvaluator_def Let_def split: if_splits)
next
  fix k assume "k < length (cellsCompleted s)" and "cellsCompleted s ! k"
  then show "cellsCompleted (run cdv fmt as s) ! k" using run_mono by blast
next
  fix k assume "\<not> cellsCompleted s ! k \<and> cellsCompleted (step cdv fmt a s) ! k"
  then show "\<exists>now hasCellCompleted found. a = PollingRun now hasCellCompleted found \<and> hasCellCompleted k"
    using step_flip by blast
qed

theorem completion_flags_monotonic_witness:
  "cellsCompleted (projr (newCodeEvaluator [demoCell] None :: EvalError + unit JsValue CodeEvaluator)) = [False]
   \<and> cellsCompleted (step demoCdv demoFmt (PollingRun 0 (\<lambda>i. True) None) demoEvaluator) = [True]
   \<and> cellsCompleted (run demoCdv demoFmt
         [CallDisplay None [], CallEnd, PollingRun 1 (\<lambda>i. False) None, CellFails ''c0'' None None]
         (step demoCdv demoFmt (PollingRun 0 (\<lambda>i. True) None) demoEvaluator)) ! 0"
proof -
  have s1: "cellsCompleted (step demoCdv demoFmt (PollingRun 0 (\<lambda>i. True) None) demoEvaluator) = [True]"
    by (simp add: demoEvaluator_eq eval_defs upt_rec)
  have s0: "newCodeEvaluator [demoCell] None
      = (Inr (projr (newCodeEvaluator [demoCell] None)) :: EvalError + unit JsValue CodeEvaluator)"
    by (simp add: newCodeEvaluator_def demoCell_def)
  show ?thesis
    using completion_flags_monotonic
            [of "[demoCell]" None "step demoCdv demoFmt (PollingRun 0 (\<lambda>i. True) None) demoEvaluator"
                demoCdv demoFmt
                "[CallDisplay None [], CallEnd, PollingRun 1 (\<lambda>i. False) None, CellFails ''c0'' None None]"
                "PollingRun 0 (\<lambda>i. True) None", where ?'v = "unit JsValue"]
          s0 s1
    by (simp add: newCodeEvaluator_def demoCell_def)
qed

section \<open>The completion event and the error reports\<close>

text \<open>
  On each of the four error paths the completion event is raised while the report of the
  error is still suspended: the error event can only follow it.
\<close>

lemma error_paths_complete_before_reporting:
  assumes "\<not> notebookFinished s" and "onEvaluationCompleted s"
  shows "emitted (cellFailed cellId msg stack s) = emitted s @ [EvaluationCompleted]
      \<and> suspendedReports (cellFailed cellId msg stack s)
          = suspendedReports s @ [\<lparr>errorSource = CodeEvaluation, curCellId = Some cellId,
                                    errorMessage = msg, errorStack = stack\<rparr>]"
    and "emitted (onUncaughtException found msg stack s) = emitted s @ [EvaluationCompleted]
      \<and> suspendedReports (onUncaughtException found msg stack s)
          = suspendedReports s @ [\<lparr>errorSource = CodeEvaluation, curCellId = getCurCellId found s,
                                    errorMessage = msg, errorStack = stack\<rparr>]"
    and "emitted (onUnhandledRejection found msg stack s) = emitted s @ [EvaluationCompleted]
      \<and> suspendedReports (onUnhandledRejection found msg stack s)
          = suspendedReports s @ [\<lparr>errorSource = CodeEvaluation, curCellId = getCurCellId found s,
                                    errorMessage = msg, errorStack = stack\<rparr>]"
    and "timedOut now s \<Longrightarrow>
         emitted (awaitNotebookCompleted now hc found s) = emitted s @ [EvaluationCompleted]
      \<and> suspendedReports (awaitNotebookCompleted now hc found s)
          = suspendedReports s @ [\<lparr>errorSource = CodeEvaluation, curCellId = getCurCellId found s,
                                    errorMessage = Some ''Notebook exceeded timeout'', errorStack = None\<rparr>]"
  using assms
  by (simp_all add: cellFailed_def onUncaughtException_def onUnhandledRejection_def
      awaitNotebookCompleted_def onFinished_def restoreOutput_def reportErrorSync_def
      reportError_def notify_def Let_def getCurCellId_def)

text \<open>
  When \<open>vm.runInThisContext\<close> throws, \<open>evalGeneratedCode\<close> reports the error and
  returns: this path raises no completion event and does not finish the notebook.
\<close>

lemma setup_failure_never_completes:
  "emitted (evalGeneratedCode (Some (msg, stack)) now found s) = emitted s
   \<and> notebookFinished (evalGeneratedCode (Some (msg, stack)) now found s) = notebookFinished s"
  by (simp add: evalGeneratedCode_def reportErrorSync_def reportError_def)

text \<open>What holds of the completion event on every path.\<close>

lemma notify_emitted: "emitted (notify h e s) = emitted s @ (if h then [e] else [])"
  by (simp add: notify_def)

lemma notify_finished [simp]: "notebookFinished (notify h e s) = notebookFinished s"
  by (simp add: notify_def)

lemma onFinished_emitted:
  "emitted (onFinished s) =
     emitted s @ (if \<not> notebookFinished s \<and> onEvaluationCompleted s then [EvaluationCompleted] else [])"
  by (simp add: onFinished_def restoreOutput_def notify_def Let_def)

lemma onFinished_finished [simp]: "notebookFinished (onFinished s)"
  by (simp add: onFinished_def restoreOutput_def notify_def Let_def)

lemma reportError_emitted [simp]:
  "emitted (reportError r s) = emitted s"
  "notebookFinished (reportError r s) = notebookFinished s"
  "onEvaluationCompleted (reportError r s) = onEvaluationCompleted s"
  by (simp_all add: reportError_def)

lemma output_step_when:
  "\<exists>new. emitted (display cdv found args s) = emitted s @ new \<and> (\<forall>e \<in> set new. isOutputEvent e)"
  "\<exists>new. emitted (snd (stdoutWriteOverride cdv found chunk ret s)) = emitted s @ new
         \<and> (\<forall>e \<in> set new. isOutputEvent e)"
  "\<exists>new. emitted (snd (stderrWriteOverride found chunk ret s)) = emitted s @ new
         \<and> (\<forall>e \<in> set new. isOutputEvent e)"
  "\<exists>new. emitted (resumeReport fmt k s) = emitted s @ new \<and> (\<forall>e \<in> set new. isOutputEvent e)"
  by (simp_all add: display_def stdoutWriteOverride_def stderrWriteOverride_def isOutputCapped_def
      resumeReport_def notify_def isOutputEvent_def Let_def)

lemma output_step_finished [simp]:
  "notebookFinished (display cdv found args s) = notebookFinished s"
  "notebookFinished (snd (stdoutWriteOverride cdv found chunk ret s)) = notebookFinished s"
  "notebookFinished (snd (stderrWriteOverride found chunk ret s)) = notebookFinished s"
  "notebookFinished (resumeReport fmt k s) = notebookFinished s"
  by (simp_all add: display_def stdoutWriteOverride_def stderrWriteOverride_def isOutputCapped_def
      resumeReport_def notify_def Let_def)

lemma fold_pollCell_emitted:
  "\<exists>new. emitted (fst (fold (pollCell hc) is st)) = emitted (fst st) @ new
       \<and> (\<forall>e \<in> set new. e \<noteq> EvaluationCompleted)
       \<and> notebookFinished (fst (fold (pollCell hc) is st)) = notebookFinished (fst st)"
proof (induction "is" arbitrary: st)
  case Nil
  then show ?case by simp
next
  case (Cons i "is")
  obtain s b where st: "st = (s, b)" by (cases st)
  obtain new1 where 1: "emitted (fst (pollCell hc i st)) = emitted (fst st) @ new1"
    "\<forall>e \<in> set new1. e \<noteq> EvaluationCompleted"
    "notebookFinished (fst (pollCell hc i st)) = notebookFinished (fst st)"
    by (cases "cellsCompleted s ! i"; cases "hc i"; cases "onCellEvalEnded s")
       (simp_all add: st pollCell_def notify_def)
  from Cons.IH [of "pollCell hc i st"]
  obtain new2 where 2: "emitted (fst (fold (pollCell hc) is (pollCell hc i st)))
        = emitted (fst (pollCell hc i st)) @ new2"
    "\<forall>e \<in> set new2. e \<noteq> EvaluationCompleted"
    "notebookFinished (fst (fold (pollCell hc) is (pollCell hc i st)))
        = notebookFinished (fst (pollCell hc i st))"
    by blast
  show ?case
    using 1 2 by (intro exI [of _ "new1 @ new2"]) auto
qed

text \<open>What one action appends, when the notebook has finished already.\<close>

lemma step_when_finished:
  assumes "notebookFinished s"
  shows "notebookFinished (step cdv fmt a s)
       \<and> (\<exists>new. emitted (step cdv fmt a s) = emitted s @ new \<and> (\<forall>e \<in> set new. isOutputEvent e))"
proof (cases a)
  case (CallDisplay found args)
  then show ?thesis using assms output_step_when(1) [of cdv found args s] by simp
next
  case (StdoutWrite found chunk ret)
  then show ?thesis using assms output_step_when(2) [of cdv found chunk ret s] by simp
next
  case (StderrWrite found chunk ret)
  then show ?thesis using assms output_step_when(3) [of found chunk ret s] by simp
next
  case (ResumeReport k)
  then show ?thesis using assms output_step_when(4) [of fmt k s] by simp
qed (use assms in \<open>simp_all add: evalGeneratedCode_def wrapperFailed_def hook_cell_def cellFailed_def
        hook_capture_locals_def hook_end_def onUncaughtException_def onUnhandledRejection_def
        awaitNotebookCompleted_def reportErrorSync_def overrideOutput_def onFinished_emitted
        split: option.splits\<close>)

lemma isOutputEvent_not_completed: "isOutputEvent e \<Longrightarrow> e \<noteq> EvaluationCompleted"
  by (auto simp: isOutputEvent_def)

lemma completedAtMostLast_none:
  "\<forall>e \<in> set new. e \<noteq> EvaluationCompleted \<Longrightarrow> completedAtMostLast new finished"
  by (auto simp: completedAtMostLast_def)

lemma completedAtMostLast_Nil [simp]: "completedAtMostLast [] finished"
  by (simp add: completedAtMostLast_def)

lemma completedAtMostLast_finish:
  "\<forall>e \<in> set pre. e \<noteq> EvaluationCompleted \<Longrightarrow>
   completedAtMostLast (pre @ (if h then [EvaluationCompleted] else [])) True"
  by (auto simp: completedAtMostLast_def)

lemma finishing_step:
  assumes "\<not> notebookFinished s"
  shows "\<exists>new. emitted (onFinished (reportErrorSync r s)) = emitted s @ new
       \<and> completedAtMostLast new (notebookFinished (onFinished (reportErrorSync r s)))"
  using assms completedAtMostLast_finish [of "[]" "onEvaluationCompleted s"]
  by (simp add: onFinished_emitted reportErrorSync_def)

lemma awaitNotebookCompleted_running:
  assumes "\<not> notebookFinished s"
  shows "\<exists>new. emitted (awaitNotebookCompleted now hc found s) = emitted s @ new
       \<and> completedAtMostLast new (notebookFinished (awaitNotebookCompleted now hc found s))"
proof (cases "timedOut now s")
  case True
  then show ?thesis
    using assms finishing_step [OF assms] by (simp add: awaitNotebookCompleted_def)
next
  case False
  obtain s1 b where f: "fold (pollCell hc) [0..<numCells s] (s, True) = (s1, b)"
    by (cases "fold (pollCell hc) [0..<numCells s] (s, True)")
  from fold_pollCell_emitted [of hc "[0..<numCells s]" "(s, True)"]
  obtain pre where pre: "emitted s1 = emitted s @ pre"
    "\<forall>e \<in> set pre. e \<noteq> EvaluationCompleted" "\<not> notebookFinished s1"
    using assms by (auto simp: f)
  show ?thesis
  proof (cases "notebookCompleted s1 \<and> b")
    case True
    then have "awaitNotebookCompleted now hc found s = onFinished s1"
      using assms False by (simp add: awaitNotebookCompleted_def f)
    then show ?thesis
      using pre completedAtMostLast_finish [of pre "onEvaluationCompleted s1"]
      by (simp add: onFinished_emitted)
  next
    case False
    then have "awaitNotebookCompleted now hc found s = s1\<lparr>pollingTimers := pollingTimers s1 + 1\<rparr>"
      using assms \<open>\<not> timedOut now s\<close> by (auto simp: awaitNotebookCompleted_def f)
    then show ?thesis
      using pre completedAtMostLast_none [of pre] by simp
  qed
qed

text \<open>What one action appends, while the notebook has not finished.\<close>

lemma step_when_running:
  assumes "\<not> notebookFinished s"
  shows "\<exists>new. emitted (step cdv fmt a s) = emitted s @ new
       \<and> completedAtMostLast new (notebookFinished (step cdv fmt a s))"
proof (cases a)
  case (SetupReportsError r)
  then show ?thesis using completedAtMostLast_none [of "[]"] by simp
next
  case SetupEndsWithoutCode
  then show ?thesis
    using assms completedAtMostLast_finish [of "[]" "onEvaluationCompleted s"]
    by (simp add: onFinished_emitted)
next
  case (EvalGeneratedCode vmError now found)
  then show ?thesis
    using completedAtMostLast_none [of "[]"]
    by (simp add: evalGeneratedCode_def reportErrorSync_def overrideOutput_def split: option.splits)
next
  case (WrapperFails found msg stack)
  then show ?thesis using finishing_step [OF assms] by (simp add: wrapperFailed_def)
next
  case (CallCell cellIndex cellId)
  then show ?thesis
    using assms completedAtMostLast_none [of "[CellEvalStarted cellId]"]
    by (auto simp: hook_cell_def notify_emitted)
next
  case (CellFails cellId msg stack)
  then show ?thesis using finishing_step [OF assms] by (simp add: cellFailed_def)
next
  case (CallDisplay found args)
  then show ?thesis
    using output_step_when(1) [of cdv found args s] isOutputEvent_not_completed
    by (auto intro!: completedAtMostLast_none)
next
  case (CallCaptureLocals cellIndex)
  then show ?thesis using completedAtMostLast_none [of "[]"] by (simp add: hook_capture_locals_def)
next
  case CallEnd
  then show ?thesis using completedAtMostLast_none [of "[]"] by (simp add: hook_end_def)
next
  case (StdoutWrite found chunk ret)
  then show ?thesis
    using output_step_when(2) [of cdv found chunk ret s] isOutputEvent_not_completed
          completedAtMostLast_none [of "[]"]
    by (auto intro!: completedAtMostLast_none)
next
  case (StderrWrite found chunk ret)
  then show ?thesis
    using output_step_when(3) [of found chunk ret s] isOutputEvent_not_completed
          completedAtMostLast_none [of "[]"]
    by (auto intro!: completedAtMostLast_none)
next
  case (UncaughtException found msg stack)
  then show ?thesis
    using finishing_step [OF assms] completedAtMostLast_none [of "[]"]
    by (simp add: onUncaughtException_def)
next
  case (UnhandledRejection found msg stack)
  then show ?thesis
    using finishing_step [OF assms] completedAtMostLast_none [of "[]"]
    by (simp add: onUnhandledRejection_def)
next
  case (PollingRun now hc found)
  then show ?thesis using awaitNotebookCompleted_running [OF assms] by simp
next
  case (ResumeReport k)
  then show ?thesis
    using output_step_when(4) [of fmt k s] isOutputEvent_not_completed
    by (auto intro!: completedAtMostLast_none)
qed

lemma afterCompleted_append_in:
  "EvaluationCompleted \<in> set evs \<Longrightarrow> afterCompleted (evs @ new) = afterCompleted evs @ new"
  unfolding afterCompleted_def by (rule dropWhile_append1) auto

lemma afterCompleted_append_out:
  "EvaluationCompleted \<notin> set evs \<Longrightarrow> afterCompleted (evs @ new) = afterCompleted new"
  unfolding afterCompleted_def by (rule dropWhile_append2) auto

lemma afterCompleted_none:
  "EvaluationCompleted \<notin> set evs \<Longrightarrow> afterCompleted evs = []"
  by (auto simp: afterCompleted_def)

lemma afterCompleted_subset: "e \<in> set (afterCompleted evs) \<Longrightarrow> e \<in> set evs"
  by (auto simp: afterCompleted_def dest: set_dropWhileD)

lemma step_completionInvariant:
  assumes "completionInvariant s"
  shows "completionInvariant (step cdv fmt a s)"
proof (cases "notebookFinished s")
  case True
  from step_when_finished [OF True, of cdv fmt a]
  obtain new where fin: "notebookFinished (step cdv fmt a s)"
    and new: "emitted (step cdv fmt a s) = emitted s @ new" "\<forall>e \<in> set new. isOutputEvent e"
    by blast
  have nc: "EvaluationCompleted \<notin> set new"
    using new(2) isOutputEvent_not_completed by blast
  have cnt: "count_list (emitted s @ new) EvaluationCompleted \<le> 1"
    using assms True count_notin [OF nc] by (simp add: completionInvariant_def)
  have aft: "\<forall>e \<in> set (afterCompleted (emitted s @ new)). e = EvaluationCompleted \<or> isOutputEvent e"
  proof (cases "EvaluationCompleted \<in> set (emitted s)")
    case True
    then show ?thesis
      using assms \<open>notebookFinished s\<close> new(2)
      by (auto simp: afterCompleted_append_in completionInvariant_def)
  next
    case False
    then show ?thesis
      using new(2) by (auto simp: afterCompleted_append_out dest: afterCompleted_subset)
  qed
  show ?thesis using fin cnt aft by (simp add: completionInvariant_def new(1))
next
  case False
  then have old: "EvaluationCompleted \<notin> set (emitted s)"
    using assms by (simp add: completionInvariant_def)
  from step_when_running [OF False, of cdv fmt a]
  obtain new pre where new: "emitted (step cdv fmt a s) = emitted s @ new"
    and pre: "new = pre \<or> new = pre @ [EvaluationCompleted] \<and> notebookFinished (step cdv fmt a s)"
      "\<forall>e \<in> set pre. e \<noteq> EvaluationCompleted"
    by (auto simp: completedAtMostLast_def)
  from pre(1) show ?thesis
  proof
    assume "new = pre"
    then have none: "EvaluationCompleted \<notin> set (emitted s @ new)" using old pre(2) by auto
    have "count_list (emitted s @ new) EvaluationCompleted = 0"
      using none by (rule count_notin)
    moreover have "afterCompleted (emitted s @ new) = []"
      using none by (rule afterCompleted_none)
    ultimately show ?thesis
      using none by (simp add: completionInvariant_def new del: set_append)
  next
    assume last: "new = pre @ [EvaluationCompleted] \<and> notebookFinished (step cdv fmt a s)"
    have np: "EvaluationCompleted \<notin> set (emitted s @ pre)" using old pre(2) by auto
    have "afterCompleted ((emitted s @ pre) @ [EvaluationCompleted])
        = afterCompleted [EvaluationCompleted]"
      using np by (rule afterCompleted_append_out)
    then have a: "afterCompleted (emitted s @ pre @ [EvaluationCompleted]) = [EvaluationCompleted]"
      by (simp add: afterCompleted_def)
    have "count_list (emitted s @ pre) EvaluationCompleted = 0"
      using np by (rule count_notin)
    then have c: "count_list (emitted s @ pre @ [EvaluationCompleted]) EvaluationCompleted = 1"
      by simp
    show ?thesis
      using last a c by (simp add: completionInvariant_def new)
  qed
qed

lemma run_completionInvariant:
  "completionInvariant s \<Longrightarrow> completionInvariant (run cdv fmt as s)"
proof (induction as arbitrary: s)
  case Nil
  then show ?case by (simp add: run_def)
next
  case (Cons a as)
  then show ?case by (simp add: run_def step_completionInvariant)
qed

text \<open>
  In every sequence of actions of an evaluation that starts with nothing emitted, the
  completion event is emitted at most once, and after it only display, error and
  output-capped events follow: never a cell-eval-started or cell-eval-completed event.
\<close>

lemma completed_once_and_no_cell_event_after:
  assumes "emitted s = []" and "\<not> notebookFinished s"
  shows "count_list (emitted (run cdv fmt as s)) EvaluationCompleted \<le> 1
       \<and> (\<forall>e \<in> set (afterCompleted (emitted (run cdv fmt as s))).
             e = EvaluationCompleted \<or> isOutputEvent e)"
proof -
  have "completionInvariant s" using assms by (simp add: completionInvariant_def)
  then have inv: "completionInvariant (run cdv fmt as s)" by (rule run_completionInvariant)
  show ?thesis
  proof (cases "notebookFinished (run cdv fmt as s)")
    case True
    with inv show ?thesis by (simp add: completionInvariant_def)
  next
    case False
    with inv have "EvaluationCompleted \<notin> set (emitted (run cdv fmt as s))"
      by (simp add: completionInvariant_def)
    then show ?thesis by (simp add: afterCompleted_none)
  qed
qed

text \<open>
  The normal path, for comparison: the cell displays a value, the generated code reaches
  \<open>__end\<close>, and the polling run that finds the cell drained raises its
  cell-eval-completed event and then the completion event, last.
\<close>

lemma normal_drain_example:
  "emitted (run demoCdv demoFmt
      [EvalGeneratedCode None 0 None, CallCell 0 ''c0'', CallDisplay (Some 0) [JsString ''1''],
       CallCaptureLocals 0, CallEnd, PollingRun 0 (\<lambda>i. False) None,
       PollingRun 1 (\<lambda>i. True) None, PollingRun 2 (\<lambda>i. True) None]
      demoEvaluator)
     = [CellEvalStarted ''c0'', Display (Some ''c0'') [JsString ''1''], CellEvalEnded ''c0'',
        EvaluationCompleted]"
  by (simp add: demoEvaluator_eq demoCdv_def eval_defs upt_rec)

text \<open>
  C6. A notebook of one cell whose code throws; all handlers are set. The generated code
  calls \<open>__cell\<close>, the first polling run finds nothing to do, the rejection handler of
  the cell reports the error and finishes, and then the suspended report resumes. The
  handlers are called in the order cell-eval-started, notebook-eval-completed,
  receive-error: the completion event is not the last event. The same order results from
  an uncaught exception, from an unhandled rejection, and from exceeding the time limit.
\<close>

theorem error_reported_after_completed:
  "emitted (run demoCdv demoFmt
      [EvalGeneratedCode None 0 None, CallCell 0 ''c0'', PollingRun 0 (\<lambda>i. False) None,
       CellFails ''c0'' (Some ''boom'') None, ResumeReport 0, PollingRun 1 (\<lambda>i. False) None]
      demoEvaluator)
     = [CellEvalStarted ''c0'', EvaluationCompleted, Error (Some ''c0'') ''boom'']
   \<and> emitted (run demoCdv demoFmt
      [EvalGeneratedCode None 0 None, CallCell 0 ''c0'', PollingRun 0 (\<lambda>i. False) None,
       UncaughtException (Some 0) (Some ''boom'') None, ResumeReport 0]
      demoEvaluator)
     = [CellEvalStarted ''c0'', EvaluationCompleted, Error (Some ''c0'') ''boom'']
   \<and> emitted (run demoCdv demoFmt
      [EvalGeneratedCode None 0 None, CallCell 0 ''c0'', PollingRun 0 (\<lambda>i. False) None,
       UnhandledRejection (Some 0) (Some ''boom'') None, ResumeReport 0]
      demoEvaluator)
     = [CellEvalStarted ''c0'', EvaluationCompleted, Error (Some ''c0'') ''boom'']
   \<and> emitted (run demoCdv demoFmt
      [EvalGeneratedCode None 0 None, CallCell 0 ''c0'', CallCaptureLocals 0, CallEnd,
       PollingRun 0 (\<lambda>i. False) None, PollingRun 101 (\<lambda>i. False) None, ResumeReport 0]
      demoTimedEvaluator)
     = [CellEvalStarted ''c0'', EvaluationCompleted, Error (Some ''c0'') ''Notebook exceeded timeout'']"
  by (simp add: demoEvaluator_eq demoTimedEvaluator_eq demoFmt_def eval_defs upt_rec)

section \<open>The supervisor: worker exit and timeout\<close>

lemma push_Some:
  "messages s notebookId = Some q \<Longrightarrow>
   push notebookId m s = s\<lparr>messages := (messages s)(notebookId \<mapsto> q @ [m])\<rparr>"
  by (simp add: push_def)

lemma onWorkerCompletion_simps:
  "workers (onWorkerCompletion notebookId s) = (workers s)(notebookId := None)"
  "messages (onWorkerCompletion notebookId s) = messages s"
  "killed (onWorkerCompletion notebookId s) = killed s"
  "cleanupTimers (onWorkerCompletion notebookId s) = cleanupTimers s @ [notebookId]"
  "notebookTimeout (onWorkerCompletion notebookId s) = notebookTimeout s"
  "closureNotebookId (onWorkerCompletion notebookId s) = closureNotebookId s"
  by (simp_all add: onWorkerCompletion_def)

lemma onUnexpectedWorkerCompletion_queue:
  "messages s notebookId = Some q \<Longrightarrow>
   messages (onUnexpectedWorkerCompletion notebookId s) notebookId
     = Some (q @ [errorEvent notebookId, completedEvent notebookId])
   \<and> workers (onUnexpectedWorkerCompletion notebookId s) = (workers s)(notebookId := None)
   \<and> killed (onUnexpectedWorkerCompletion notebookId s) = killed s"
  by (simp add: onUnexpectedWorkerCompletion_def Let_def onWorkerCompletion_def push_def)

lemma onNotebookTimeout_queue:
  "messages s notebookId = Some q \<Longrightarrow>
   messages (onNotebookTimeout notebookId s) notebookId
     = Some (q @ [errorEvent notebookId, completedEvent notebookId])
   \<and> workers (onNotebookTimeout notebookId s) = (workers s)(notebookId := None)
   \<and> killed (onNotebookTimeout notebookId s) = killed s
   \<and> closureNotebookId (onNotebookTimeout notebookId s) = closureNotebookId s"
  by (simp add: onNotebookTimeout_def Let_def onWorkerCompletion_def push_def)

lemma workerExit_unregistered:
  "closureNotebookId s worker = Some notebookId \<Longrightarrow> workers s notebookId = None \<Longrightarrow>
   workerExit worker s = s"
  by (simp add: workerExit_def)

lemma evaluate_initial:
  "evaluate ''n'' (initialSupervisor :: unit Supervisor) =
     \<lparr>workers = [''n'' \<mapsto> 0], messages = [''n'' \<mapsto> []], nextWorker = 1,
      closureNotebookId = [0 \<mapsto> ''n''], notebookTimeout = {0}, cleanupTimers = [], killed = []\<rparr>"
  by (simp add: evaluate_def killWorkers_def forkEvalWorker_def initialSupervisor_def Let_def)

text \<open>
  C4, as claimed, fails: a worker that is killed by a stop request exits without having
  sent \<open>completed\<close>, and nothing is appended to the queue of its notebook, neither by
  the stop nor by the exit.
\<close>

theorem exit_after_stop_appends_nothing_counterexample:
  "closureNotebookId (stopEvaluation ''n'' (evaluate ''n'' (initialSupervisor :: unit Supervisor))) 0 = Some ''n''
   \<and> killed (stopEvaluation ''n'' (evaluate ''n'' (initialSupervisor :: unit Supervisor))) = [0]
   \<and> messages (workerExit 0 (stopEvaluation ''n'' (evaluate ''n'' (initialSupervisor :: unit Supervisor)))) ''n''
       = Some []"
  by (simp add: stopEvaluation_def evaluate_def killWorkers_def forkEvalWorker_def
      onWorkerCompletion_def initialSupervisor_def workerExit_def Let_def)

text \<open>
  C4, amended. When a worker exits while its notebook still has a worker entry and a
  message queue, the supervisor appends the error event with the fixed
  unexpected-termination message and then the notebook-eval-completed event, and removes
  the entry, so that the notebook is no longer in the status. When the timeout timer of a
  worker expires, the timeout handler appends the same two events and removes the entry
  before it kills the worker, and the exit that follows changes nothing. The exit of a
  worker whose notebook has no entry (after \<open>completed\<close>, a stop or a timeout) changes
  nothing.
\<close>

theorem exit_while_registered:
  assumes "closureNotebookId s worker = Some notebookId"
  shows "(workers s notebookId \<noteq> None \<and> messages s notebookId = Some q \<longrightarrow>
            messages (workerExit worker s) notebookId
              = Some (q @ [errorEvent notebookId, completedEvent notebookId])
          \<and> workers (workerExit worker s) notebookId = None
          \<and> notebookId \<notin> status (workerExit worker s))
       \<and> (worker \<in> notebookTimeout s \<and> messages s notebookId = Some q \<longrightarrow>
            messages (timeoutExpires worker s) notebookId
              = Some (q @ [errorEvent notebookId, completedEvent notebookId])
          \<and> notebookId \<notin> status (timeoutExpires worker s)
          \<and> killed (timeoutExpires worker s) = killed s @ [worker]
          \<and> workerExit worker (timeoutExpires worker s) = timeoutExpires worker s)
       \<and> (workers s notebookId = None \<longrightarrow> workerExit worker s = s)"
proof (intro conjI impI)
  assume a: "workers s notebookId \<noteq> None \<and> messages s notebookId = Some q"
  let ?s0 = "s\<lparr>notebookTimeout := notebookTimeout s - {worker}\<rparr>"
  have ex: "workerExit worker s = onUnexpectedWorkerCompletion notebookId ?s0"
    using assms a by (simp add: workerExit_def)
  have q0: "messages ?s0 notebookId = Some q" using a by simp
  note u = onUnexpectedWorkerCompletion_queue [OF q0]
  show "messages (workerExit worker s) notebookId
          = Some (q @ [errorEvent notebookId, completedEvent notebookId])"
    using u by (simp add: ex)
  show w: "workers (workerExit worker s) notebookId = None"
    using u by (simp add: ex)
  show "notebookId \<notin> status (workerExit worker s)"
    using w by (simp add: status_def dom_def)
next
  assume b: "worker \<in> notebookTimeout s \<and> messages s notebookId = Some q"
  let ?s1 = "onNotebookTimeout notebookId s"
  have q: "messages s notebookId = Some q" using b by simp
  note t = onNotebookTimeout_queue [OF q]
  have te: "timeoutExpires worker s
      = ?s1\<lparr>killed := killed ?s1 @ [worker], notebookTimeout := notebookTimeout ?s1 - {worker}\<rparr>"
    using assms b by (simp add: timeoutExpires_def Let_def)
  show "messages (timeoutExpires worker s) notebookId
          = Some (q @ [errorEvent notebookId, completedEvent notebookId])"
    using t by (simp add: te)
  have w: "workers (timeoutExpires worker s) notebookId = None"
    using t by (simp add: te)
  then show "notebookId \<notin> status (timeoutExpires worker s)"
    by (simp add: status_def dom_def)
  show "killed (timeoutExpires worker s) = killed s @ [worker]"
    using t by (simp add: te)
  have c: "closureNotebookId (timeoutExpires worker s) worker = Some notebookId"
    using t assms by (simp add: te)
  show "workerExit worker (timeoutExpires worker s) = timeoutExpires worker s"
    using c w by (rule workerExit_unregistered)
next
  assume "workers s notebookId = None"
  with assms show "workerExit worker s = s" by (rule workerExit_unregistered)
qed

theorem exit_while_registered_witness:
  "messages (workerExit 0 (evaluate ''n'' (initialSupervisor :: unit Supervisor))) ''n''
     = Some [errorEvent ''n'', completedEvent ''n'']
   \<and> ''n'' \<notin> status (workerExit 0 (evaluate ''n'' (initialSupervisor :: unit Supervisor)))
   \<and> messages (timeoutExpires 0 (evaluate ''n'' (initialSupervisor :: unit Supervisor))) ''n''
     = Some [errorEvent ''n'', completedEvent ''n'']
   \<and> workerExit 0 (timeoutExpires 0 (evaluate ''n'' (initialSupervisor :: unit Supervisor)))
     = timeoutExpires 0 (evaluate ''n'' (initialSupervisor :: unit Supervisor))
   \<and> workerExit 0 (stopEvaluation ''n'' (evaluate ''n'' (initialSupervisor :: unit Supervisor)))
     = stopEvaluation ''n'' (evaluate ''n'' (initialSupervisor :: unit Supervisor))"
  using exit_while_registered [of "evaluate ''n'' (initialSupervisor :: unit Supervisor)" 0 "''n''" "[]"]
        exit_while_registered [of "stopEvaluation ''n'' (evaluate ''n'' (initialSupervisor :: unit Supervisor))" 0 "''n''" "[]"]
  by (simp add: evaluate_initial stopEvaluation_def killWorkers_def onWorkerCompletion_def Let_def)

text \<open>
  The queue is a condition of its own. The clean-up timer that the completion of a first
  evaluation has set is not cancelled by a second evaluation of the same notebook; when
  it fires it deletes the queue of the second evaluation, and the exit of the second
  worker then appends nothing.
\<close>

lemma stale_cleanup_example:
  "messages (cleanupExpires (evaluate ''n'' (workerMessage 0 completedMessage
      (evaluate ''n'' (initialSupervisor :: unit Supervisor))))) ''n'' = None
   \<and> workers (cleanupExpires (evaluate ''n'' (workerMessage 0 completedMessage
      (evaluate ''n'' (initialSupervisor :: unit Supervisor))))) ''n'' = Some 1
   \<and> messages (workerExit 1 (cleanupExpires (evaluate ''n'' (workerMessage 0 completedMessage
      (evaluate ''n'' (initialSupervisor :: unit Supervisor)))))) ''n'' = None"
  by (simp add: evaluate_initial completedMessage_def workerMessage_def onWorkerCompletion_def)
     (simp add: evaluate_def killWorkers_def forkEvalWorker_def cleanupExpires_def workerExit_def
        onUnexpectedWorkerCompletion_def onWorkerCompletion_def Let_def)

section \<open>The supervisor: stopping an evaluation\<close>








section \<open>The supervisor: messages of workers\<close>

lemma workerMessage_without_workerId:
  "message_workerId message = None \<Longrightarrow> workerMessage worker message s = s"
  by (simp add: workerMessage_def split: option.splits)

lemma workerMessage_unregistered:
  "closureNotebookId s worker = Some notebookId \<Longrightarrow> workers s notebookId = None \<Longrightarrow>
   workerMessage worker message s = s"
  by (simp add: workerMessage_def split: option.splits)

lemma evaluate_restart:
  "evaluate ''n'' (evaluate ''n'' (initialSupervisor :: unit Supervisor)) =
     \<lparr>workers = [''n'' \<mapsto> 1], messages = [''n'' \<mapsto> []], nextWorker = 2,
      closureNotebookId = [0 \<mapsto> ''n'', 1 \<mapsto> ''n''], notebookTimeout = {1, 0},
      cleanupTimers = [''n''], killed = [0]\<rparr>"
  by (simp add: evaluate_initial)
     (simp add: evaluate_def killWorkers_def onWorkerCompletion_def forkEvalWorker_def Let_def)

text \<open>
  C10. The notebook \<open>n\<close> is evaluated, and evaluated again while its first worker
  (worker 0) still runs. The restart removes the entry of worker 0, kills it and registers
  worker 1. A notebook event that worker 0 had sent before it died, and that arrives after
  the restart, is appended to the queue of \<open>n\<close>: the handler looks the entry up by
  notebook id and finds the entry of worker 1.
\<close>

theorem late_message_after_restart_is_queued:
  "workers (stopEvaluation ''n'' (evaluate ''n'' (initialSupervisor :: unit Supervisor))) ''n'' = None
   \<and> workers (evaluate ''n'' (evaluate ''n'' (initialSupervisor :: unit Supervisor))) ''n'' = Some 1
   \<and> closureNotebookId (evaluate ''n'' (evaluate ''n'' (initialSupervisor :: unit Supervisor))) 0 = Some ''n''
   \<and> killed (evaluate ''n'' (evaluate ''n'' (initialSupervisor :: unit Supervisor))) = [0]
   \<and> messages (evaluate ''n'' (evaluate ''n'' (initialSupervisor :: unit Supervisor))) ''n'' = Some []
   \<and> messages (workerMessage 0 demoMessage
        (evaluate ''n'' (evaluate ''n'' (initialSupervisor :: unit Supervisor)))) ''n'' = Some [demoEvent]"
  by (simp add: evaluate_restart)
     (simp add: evaluate_initial stopEvaluation_def killWorkers_def onWorkerCompletion_def
        workerMessage_def demoMessage_def demoEvent_def onNotebookEvent_def push_def Let_def)

end
